theory Spec2Isabelle
  imports Complex_Main "HOL-Library.AList"
begin

section \<open>Python values shared by both scripts\<close>

text \<open>
  The exceptions the simulation code can raise. \<^verbatim>\<open>RuntimeError\<close> carries its message.
\<close>

datatype error = IndexError | ValueError | ZeroDivisionError | RuntimeError string

text \<open>Python's \<^verbatim>\<open>a % b\<close> on integers: the sign follows the divisor, as \<open>mod\<close> does.\<close>

definition py_mod :: "int \<Rightarrow> int \<Rightarrow> error + int" where
  "py_mod a b = (if b = 0 then Inl ZeroDivisionError else Inr (a mod b))"

text \<open>
  Python's \<^verbatim>\<open>xs[i]\<close>: a negative index counts from the end, anything outside
  \<^verbatim>\<open>-len(xs) .. len(xs)-1\<close> raises \<^verbatim>\<open>IndexError\<close>.
\<close>

definition py_norm_index :: "'a list \<Rightarrow> int \<Rightarrow> error + nat" where
  "py_norm_index xs i =
     (let n = int (length xs); j = (if i < 0 then n + i else i)
      in if 0 \<le> j \<and> j < n then Inr (nat j) else Inl IndexError)"

definition py_getitem :: "'a list \<Rightarrow> int \<Rightarrow> error + 'a" where
  "py_getitem xs i =
     (case py_norm_index xs i of Inl e \<Rightarrow> Inl e | Inr j \<Rightarrow> Inr (xs ! j))"

definition py_setitem :: "'a list \<Rightarrow> int \<Rightarrow> 'a \<Rightarrow> error + 'a list" where
  "py_setitem xs i v =
     (case py_norm_index xs i of Inl e \<Rightarrow> Inl e | Inr j \<Rightarrow> Inr (xs[j := v]))"

text \<open>
  \<^verbatim>\<open>min(xs)\<close> and \<^verbatim>\<open>max(xs)\<close> on a list of integers raise \<^verbatim>\<open>ValueError\<close> on the
  empty list. \<^verbatim>\<open>max(xs, key=k)\<close> keeps the first element whose key is greatest: the
  running best is replaced only by an element with a strictly greater key.
\<close>

fun py_min :: "int list \<Rightarrow> error + int" where
  "py_min [] = Inl ValueError"
| "py_min (v # vs) = Inr (foldl min v vs)"

fun py_max :: "int list \<Rightarrow> error + int" where
  "py_max [] = Inl ValueError"
| "py_max (v # vs) = Inr (foldl max v vs)"

fun py_max_key :: "('a \<Rightarrow> 'k) \<Rightarrow> ('k \<Rightarrow> 'k \<Rightarrow> bool) \<Rightarrow> 'a list \<Rightarrow> error + 'a" where
  "py_max_key key lt [] = Inl ValueError"
| "py_max_key key lt (v # vs) =
     Inr (foldl (\<lambda>best e. if lt (key best) (key e) then e else best) v vs)"

text \<open>Python's comparison of two 3-tuples of integers: lexicographic.\<close>

fun tuple3_less :: "int \<times> int \<times> int \<Rightarrow> int \<times> int \<times> int \<Rightarrow> bool" where
  "tuple3_less (a1, a2, a3) (b1, b2, b3) =
     (a1 < b1 \<or> (a1 = b1 \<and> (a2 < b2 \<or> (a2 = b2 \<and> a3 < b3))))"

section \<open>Shooter engine (generate\_contribution\_gif.py)\<close>

subsection \<open>Data\<close>

record Bullet =
  bullet_x :: int
  bullet_y :: int

text \<open>
  \<^verbatim>\<open>enemies: dict[tuple[int, int], int]\<close>. A Python dict iterates in insertion order and
  \<^verbatim>\<open>max\<close> breaks ties by that order, so the dict is an association list in insertion
  order with pairwise distinct keys: \<^const>\<open>map_of\<close> is the lookup, \<^const>\<open>AList.update\<close> the
  assignment to a key (in place when the key is present) and \<^const>\<open>AList.delete\<close> is
  \<^verbatim>\<open>del\<close>.
\<close>

type_synonym enemies = "((int \<times> int) \<times> int) list"

definition enumerate_int :: "'a list \<Rightarrow> (int \<times> 'a) list" where
  "enumerate_int xs = zip (map int [0..<length xs]) xs"

definition build_enemies :: "int list list \<Rightarrow> enemies" where
  "build_enemies contribution_grid =
     concat (map (\<lambda>(y, row).
        map (\<lambda>(x, level). ((x, y), level))
          (filter (\<lambda>(x, level). level > 0) (enumerate_int row)))
       (enumerate_int contribution_grid))"

definition enemy_bounds :: "enemies \<Rightarrow> error + (int \<times> int \<times> int \<times> int)" where
  "enemy_bounds enemies =
     (let xs = map (\<lambda>((x, _), hp). x) (filter (\<lambda>(_, hp). hp > 0) enemies);
          ys = map (\<lambda>((_, y), hp). y) (filter (\<lambda>(_, hp). hp > 0) enemies)
      in case py_min xs of Inl e \<Rightarrow> Inl e | Inr min_x \<Rightarrow>
         (case py_max xs of Inl e \<Rightarrow> Inl e | Inr max_x \<Rightarrow>
         (case py_min ys of Inl e \<Rightarrow> Inl e | Inr min_y \<Rightarrow>
         (case py_max ys of Inl e \<Rightarrow> Inl e | Inr max_y \<Rightarrow>
            Inr (min_x, max_x, min_y, max_y)))))"

subsection \<open>Targeting and ship motion\<close>

text \<open>
  \<open>target_key\<close> is the key of \<^verbatim>\<open>pick_target_column\<close>,
  \<^verbatim>\<open>lambda e: (e[1], -abs(e[0] - ship_x), e[2])\<close>, on a candidate (column, row, hit points).
\<close>

definition target_key :: "int \<Rightarrow> int \<times> int \<times> int \<Rightarrow> int \<times> int \<times> int" where
  "target_key ship_x e = (case e of (cx, cy, hp) \<Rightarrow> (cy, - \<bar>cx - ship_x\<bar>, hp))"

definition pick_target_column :: "enemies \<Rightarrow> int \<Rightarrow> int \<Rightarrow> int \<Rightarrow> error + int" where
  "pick_target_column enemies formation_x formation_y ship_x =
     (let candidates =
            map (\<lambda>((ex, ey), hp). (formation_x + ex, formation_y + ey, hp))
              (filter (\<lambda>(_, hp). hp > 0) enemies)
      in case py_max_key (target_key ship_x) tuple3_less candidates of
           Inl e \<Rightarrow> Inl e
         | Inr (target_x, _, _) \<Rightarrow> Inr target_x)"

definition move_ship_towards :: "int \<Rightarrow> int \<Rightarrow> int \<Rightarrow> int" where
  "move_ship_towards ship_x target_x width =
     (if target_x > ship_x then min (width - 1) (ship_x + 1)
      else if target_x < ship_x then max 0 (ship_x - 1)
      else ship_x)"

subsection \<open>Bullet resolution\<close>

text \<open>
  The inner loop \<^verbatim>\<open>for _ in range(bullet_speed)\<close> of one bullet, with the number of
  sub-steps still to run. It returns the bullet as mutated, the flag \<^verbatim>\<open>destroyed\<close> and
  the dict as mutated.
\<close>

fun advance_bullet ::
  "nat \<Rightarrow> Bullet \<Rightarrow> enemies \<Rightarrow> int \<Rightarrow> int \<Rightarrow> Bullet \<times> bool \<times> enemies" where
  "advance_bullet 0 bullet enemies formation_x formation_y = (bullet, False, enemies)"
| "advance_bullet (Suc n) bullet enemies formation_x formation_y =
     (let bullet1 = bullet\<lparr>bullet_y := bullet_y bullet - 1\<rparr> in
      if bullet_y bullet1 < 0 then (bullet1, True, enemies)
      else
        let rel = (bullet_x bullet1 - formation_x, bullet_y bullet1 - formation_y) in
        (case map_of enemies rel of
           Some hp \<Rightarrow>
             if hp > 0 then
               (let enemies1 = AList.update rel (hp - 1) enemies;
                    enemies2 = (if hp - 1 \<le> 0 then AList.delete rel enemies1 else enemies1)
                in (bullet1, True, enemies2))
             else advance_bullet n bullet1 enemies formation_x formation_y
         | None \<Rightarrow> advance_bullet n bullet1 enemies formation_x formation_y))"

fun move_bullets_and_apply_hits ::
  "Bullet list \<Rightarrow> enemies \<Rightarrow> int \<Rightarrow> int \<Rightarrow> int \<Rightarrow> Bullet list \<times> enemies" where
  "move_bullets_and_apply_hits [] enemies formation_x formation_y bullet_speed = ([], enemies)"
| "move_bullets_and_apply_hits (bullet # bullets) enemies formation_x formation_y bullet_speed =
     (case advance_bullet (nat bullet_speed) bullet enemies formation_x formation_y of
        (bullet', destroyed, enemies') \<Rightarrow>
          (case move_bullets_and_apply_hits bullets enemies' formation_x formation_y bullet_speed of
             (next_bullets, enemies'') \<Rightarrow>
               (if destroyed then next_bullets else bullet' # next_bullets, enemies'')))"

subsection \<open>Formation pacing\<close>

definition step_enemy_formation ::
  "enemies \<Rightarrow> int \<Rightarrow> int \<Rightarrow> int \<Rightarrow> int \<Rightarrow> error + (int \<times> int \<times> int)" where
  "step_enemy_formation enemies width formation_x formation_y direction =
     (if enemies = [] then Inr (formation_x, formation_y, direction)
      else case enemy_bounds enemies of
        Inl e \<Rightarrow> Inl e
      | Inr (min_x, max_x, _, _) \<Rightarrow>
          if formation_x + max_x + direction \<ge> width \<or> formation_x + min_x + direction < 0
          then Inr (formation_x, formation_y + 1, direction * (- 1))
          else Inr (formation_x + direction, formation_y, direction))"

text \<open>
  \<^verbatim>\<open>compute_enemy_move_interval\<close> computes in floating point. The model computes the same
  expression over the rationals (\<open>1.3\<close> is \<open>13/10\<close>), which is what the doubles give
  as long as the operands stay far below \<open>2^53\<close>: \<^verbatim>\<open>int(...)\<close> truncates towards zero,
  \<^verbatim>\<open>/\<close> is true division and \<^verbatim>\<open>ceil\<close> rounds up.
\<close>

definition py_int_of :: "rat \<Rightarrow> int" where
  "py_int_of q = (if q < 0 then - \<lfloor>- q\<rfloor> else \<lfloor>q\<rfloor>)"

definition compute_enemy_move_interval :: "int \<Rightarrow> int \<Rightarrow> int \<Rightarrow> int" where
  "compute_enemy_move_interval total_hp width max_descents =
     (let estimated_ticks_to_clear =
            py_int_of (of_int total_hp * (13 / 10) + of_int (width * 6));
          raw = \<lceil>(of_int estimated_ticks_to_clear :: rat)
                   / of_int (max 1 (width * max_descents))\<rceil>
      in max 28 (min 180 raw))"


subsection \<open>The simulation loop of \<^verbatim>\<open>generate_gif\<close>\<close>

text \<open>
  The local variables of \<^verbatim>\<open>generate_gif\<close> that the loop reads and writes. Fetching the
  grid, rendering and saving frames are outside the model: the grid is a parameter and a
  frame is a function of the state.
\<close>

record shooter_state =
  st_enemies :: enemies
  st_width :: int
  st_height :: int
  st_ship_x :: int
  st_ship_y :: int
  st_formation_x :: int
  st_formation_y :: int
  st_enemy_direction :: int
  st_bullets :: "Bullet list"
  st_cooldown :: int
  st_fire_cooldown_ticks :: int
  st_bullet_speed :: int
  st_enemy_move_interval :: int
  st_tick :: int
  st_current_target_x :: int

text \<open>Lines 274 to 302: everything before the loop.\<close>

definition shooter_init :: "int list list \<Rightarrow> error + shooter_state" where
  "shooter_init contribution_grid =
     (let enemies = build_enemies contribution_grid in
      if enemies = []
      then Inl (RuntimeError ''No enemies found. No contributions available to render.'')
      else case py_getitem contribution_grid 0 of
        Inl e \<Rightarrow> Inl e
      | Inr row0 \<Rightarrow>
         (let contribution_width = int (length row0);
              width = contribution_width + 2;
              enemy_height = int (length contribution_grid);
              height = enemy_height + 30;
              ship_x = width div 2;
              ship_y = height - 2;
              formation_x = 1;
              formation_y = 2;
              total_hp = sum_list (map snd enemies);
              max_descents_before_fail = max 3 (ship_y - (formation_y + enemy_height) - 2)
          in Inr \<lparr> st_enemies = enemies, st_width = width, st_height = height,
                   st_ship_x = ship_x, st_ship_y = ship_y,
                   st_formation_x = formation_x, st_formation_y = formation_y,
                   st_enemy_direction = 1, st_bullets = [], st_cooldown = 0,
                   st_fire_cooldown_ticks = 0, st_bullet_speed = 2,
                   st_enemy_move_interval =
                     compute_enemy_move_interval total_hp width max_descents_before_fail,
                   st_tick = 0, st_current_target_x = ship_x \<rparr>))"

text \<open>
  Lines 323 to 344: the choice of the target column. The two draws from the module
  \<^verbatim>\<open>random\<close> are parameters: \<open>rnd\<close> is the value of \<^verbatim>\<open>random.random()\<close>, and
  \<^verbatim>\<open>random.choice(seq)\<close> is \<^verbatim>\<open>seq[randbelow(len(seq))]\<close>. \<^verbatim>\<open>sorted\<close> is stable, as
  \<^const>\<open>sort_key\<close> is.
\<close>

definition choose_target ::
  "enemies \<Rightarrow> int \<Rightarrow> int \<Rightarrow> int \<Rightarrow> int \<Rightarrow> int \<Rightarrow> rat \<Rightarrow> (nat \<Rightarrow> nat) \<Rightarrow> error + int" where
  "choose_target enemies formation_x formation_y ship_x current_target_x tick rnd randbelow =
     (let enemy_count = int (length enemies);
          chaos_mode = enemy_count > 220
      in if chaos_mode then
           (if tick mod 8 = 0 \<or> ship_x = current_target_x then
              (let enemy_columns =
                     sort (remdups (map (\<lambda>((ex, _), hp). formation_x + ex)
                                      (filter (\<lambda>(_, hp). hp > 0) enemies)))
               in if enemy_columns \<noteq> [] then
                    (if rnd < 45 / 100 then
                       (let nearest_columns =
                              take 12 (sort_key (\<lambda>col. \<bar>col - ship_x\<bar>) enemy_columns)
                        in Inr (nearest_columns ! randbelow (length nearest_columns)))
                     else pick_target_column enemies formation_x formation_y ship_x)
                  else Inr current_target_x)
            else Inr current_target_x)
         else pick_target_column enemies formation_x formation_y ship_x)"

text \<open>Lines 348 to 358: firing. The result is the bullet list and the cooldown.\<close>

definition fire ::
  "enemies \<Rightarrow> int \<Rightarrow> int \<Rightarrow> int \<Rightarrow> int \<Rightarrow> Bullet list \<Rightarrow> int \<Rightarrow> int \<Rightarrow> Bullet list \<times> int" where
  "fire enemies formation_x formation_y ship_x ship_y bullets cooldown fire_cooldown_ticks =
     (if cooldown \<le> 0 then
        (let has_enemy_ahead =
               list_ex (\<lambda>((ex, ey), hp). formation_x + ex = ship_x \<and> formation_y + ey < ship_y)
                 (filter (\<lambda>(_, hp). hp > 0) enemies)
         in if has_enemy_ahead
            then (bullets @ [\<lparr> bullet_x = ship_x, bullet_y = ship_y - 1 \<rparr>], fire_cooldown_ticks)
            else (bullets, cooldown))
      else (bullets, cooldown - 1))"

text \<open>Lines 321 to 371: one pass of the loop body, without the rendering.\<close>

definition shooter_tick :: "shooter_state \<Rightarrow> rat \<Rightarrow> (nat \<Rightarrow> nat) \<Rightarrow> error + shooter_state" where
  "shooter_tick st rnd randbelow =
     (let tick = st_tick st + 1 in
      case choose_target (st_enemies st) (st_formation_x st) (st_formation_y st)
             (st_ship_x st) (st_current_target_x st) tick rnd randbelow of
        Inl e \<Rightarrow> Inl e
      | Inr current_target_x \<Rightarrow>
         (let ship_x = move_ship_towards (st_ship_x st) current_target_x (st_width st) in
          case fire (st_enemies st) (st_formation_x st) (st_formation_y st) ship_x (st_ship_y st)
                 (st_bullets st) (st_cooldown st) (st_fire_cooldown_ticks st) of
            (bullets1, cooldown) \<Rightarrow>
          case move_bullets_and_apply_hits bullets1 (st_enemies st) (st_formation_x st)
                 (st_formation_y st) (st_bullet_speed st) of
            (bullets, enemies) \<Rightarrow>
          case py_mod tick (st_enemy_move_interval st) of
            Inl e \<Rightarrow> Inl e
          | Inr r \<Rightarrow>
          case (if r = 0 \<and> enemies \<noteq> []
                then step_enemy_formation enemies (st_width st) (st_formation_x st)
                       (st_formation_y st) (st_enemy_direction st)
                else Inr (st_formation_x st, st_formation_y st, st_enemy_direction st)) of
            Inl e \<Rightarrow> Inl e
          | Inr (formation_x, formation_y, enemy_direction) \<Rightarrow>
              Inr (st\<lparr> st_enemies := enemies, st_ship_x := ship_x,
                       st_formation_x := formation_x, st_formation_y := formation_y,
                       st_enemy_direction := enemy_direction, st_bullets := bullets,
                       st_cooldown := cooldown, st_tick := tick,
                       st_current_target_x := current_target_x \<rparr>)))"


section \<open>Automaton engine (generate\_contribution\_life\_gif.py)\<close>

definition PALETTE :: "string list" where
  "PALETTE = [''#161b22'', ''#0e4429'', ''#006d32'', ''#26a641'', ''#39d353'']"

definition turns :: "int list" where
  "turns = [1, - 1, 1, - 1, 1]"

text \<open>
  \<^verbatim>\<open>step_ant\<close> mutates the grid in place; the model returns the new grid with the new
  position and heading. The rows of a grid built by \<^verbatim>\<open>fetch_contribution_grid\<close> are
  separate lists, so a grid is a list of lists by value. Every read is Python's indexing,
  with its \<^verbatim>\<open>IndexError\<close>. The only exception after the write is the
  \<^verbatim>\<open>ZeroDivisionError\<close> of a ragged grid whose first row is empty; the result is then the
  error alone.
\<close>

definition step_ant ::
  "int list list \<Rightarrow> int \<Rightarrow> int \<Rightarrow> int \<Rightarrow> error + (int list list \<times> int \<times> int \<times> int)" where
  "step_ant grid ant_x ant_y direction =
     (let height = int (length grid) in
      case py_getitem grid 0 of Inl e \<Rightarrow> Inl e | Inr row0 \<Rightarrow>
      let width = int (length row0) in
      case py_getitem grid ant_y of Inl e \<Rightarrow> Inl e | Inr row \<Rightarrow>
      case py_getitem row ant_x of Inl e \<Rightarrow> Inl e | Inr current_level \<Rightarrow>
      case py_getitem turns current_level of Inl e \<Rightarrow> Inl e | Inr turn \<Rightarrow>
      let direction1 = (direction + turn) mod 4 in
      case py_setitem row ant_x ((current_level + 1) mod int (length PALETTE)) of
        Inl e \<Rightarrow> Inl e | Inr row' \<Rightarrow>
      case py_setitem grid ant_y row' of Inl e \<Rightarrow> Inl e | Inr grid' \<Rightarrow>
      if direction1 = 0 then
        (case py_mod (ant_y - 1) height of
           Inl e \<Rightarrow> Inl e | Inr ant_y' \<Rightarrow> Inr (grid', ant_x, ant_y', direction1))
      else if direction1 = 1 then
        (case py_mod (ant_x + 1) width of
           Inl e \<Rightarrow> Inl e | Inr ant_x' \<Rightarrow> Inr (grid', ant_x', ant_y, direction1))
      else if direction1 = 2 then
        (case py_mod (ant_y + 1) height of
           Inl e \<Rightarrow> Inl e | Inr ant_y' \<Rightarrow> Inr (grid', ant_x, ant_y', direction1))
      else
        (case py_mod (ant_x - 1) width of
           Inl e \<Rightarrow> Inl e | Inr ant_x' \<Rightarrow> Inr (grid', ant_x', ant_y, direction1)))"

text \<open>
  The loop \<^verbatim>\<open>for _ in range(iterations)\<close> of the automaton's \<^verbatim>\<open>generate_gif\<close>, and the
  function itself from the fetched grid on: the start cell is drawn by
  \<^verbatim>\<open>random.randrange\<close>, here the two parameters \<open>start_x\<close> and \<open>start_y\<close>, and the
  first heading is 1 (right). There is no test of the grid's levels before the loop.
\<close>

fun run_ant ::
  "nat \<Rightarrow> int list list \<Rightarrow> int \<Rightarrow> int \<Rightarrow> int \<Rightarrow> error + (int list list \<times> int \<times> int \<times> int)" where
  "run_ant 0 grid ant_x ant_y direction = Inr (grid, ant_x, ant_y, direction)"
| "run_ant (Suc n) grid ant_x ant_y direction =
     (case step_ant grid ant_x ant_y direction of
        Inl e \<Rightarrow> Inl e
      | Inr (grid', ant_x', ant_y', direction') \<Rightarrow> run_ant n grid' ant_x' ant_y' direction')"

definition ant_generate ::
  "int list list \<Rightarrow> int \<Rightarrow> int \<Rightarrow> int \<Rightarrow> error + (int list list \<times> int \<times> int \<times> int)" where
  "ant_generate current start_x start_y iterations =
     run_ant (nat iterations) current start_x start_y 1"


section \<open>States of a run and notions of the statements\<close>

text \<open>
  The states the shooter's loop can be in: the one \<^const>\<open>shooter_init\<close> builds from a
  grid, and every state one more pass of the loop body makes of such a state, whatever
  the random draws. The guard of the loop (\<^verbatim>\<open>enemies and tick < max_ticks\<close>) is left out,
  so the states of every run, for every tick budget, are among them.
\<close>

inductive shooter_reachable :: "int list list \<Rightarrow> shooter_state \<Rightarrow> bool" where
  reach_init: "shooter_init grid = Inr st \<Longrightarrow> shooter_reachable grid st"
| reach_tick: "shooter_reachable grid st \<Longrightarrow> shooter_tick st rnd randbelow = Inr st'
     \<Longrightarrow> shooter_reachable grid st'"

text \<open>
  Notions the statements about bullets use. A formation is well formed when its keys are
  pairwise distinct, as the keys of a dict are, and every entry has 1 to 4 hit points.
  \<open>hp_sum\<close> is \<^verbatim>\<open>sum(enemies.values())\<close>. \<open>live_at\<close> is the test
  \<^verbatim>\<open>rel in enemies and enemies[rel] > 0\<close>; a bullet passes its \<open>j\<close>-th sub-step when
  the row it reaches is in the grid and holds no live enemy; \<open>hit\<close> is the effect of
  \<^verbatim>\<open>enemies[rel] -= 1\<close> followed by the conditional \<^verbatim>\<open>del enemies[rel]\<close>.
\<close>

definition formation_ok :: "enemies \<Rightarrow> bool" where
  "formation_ok enemies \<longleftrightarrow>
     distinct (map fst enemies) \<and> (\<forall>(rel, hp) \<in> set enemies. 1 \<le> hp \<and> hp \<le> 4)"

definition hp_sum :: "enemies \<Rightarrow> int" where
  "hp_sum enemies = sum_list (map snd enemies)"

definition live_at :: "enemies \<Rightarrow> int \<times> int \<Rightarrow> bool" where
  "live_at enemies rel = (case map_of enemies rel of None \<Rightarrow> False | Some hp \<Rightarrow> hp > 0)"

definition passes :: "enemies \<Rightarrow> int \<Rightarrow> int \<Rightarrow> Bullet \<Rightarrow> nat \<Rightarrow> bool" where
  "passes enemies formation_x formation_y bullet j \<longleftrightarrow>
     0 \<le> bullet_y bullet - int j \<and>
     \<not> live_at enemies (bullet_x bullet - formation_x, bullet_y bullet - int j - formation_y)"

definition hit :: "enemies \<Rightarrow> int \<times> int \<Rightarrow> enemies" where
  "hit enemies rel =
     (case map_of enemies rel of
        None \<Rightarrow> enemies
      | Some hp \<Rightarrow> if hp - 1 \<le> 0 then AList.delete rel (AList.update rel (hp - 1) enemies)
                   else AList.update rel (hp - 1) enemies)"

text \<open>
  One cell in a heading with wrap on both axes (0 up, 1 right, 2 down, 3 left): the four
  branches at the end of \<^verbatim>\<open>step_ant\<close>, as a function of their own.
\<close>

definition ant_move :: "int \<Rightarrow> int \<Rightarrow> int \<Rightarrow> int \<Rightarrow> int \<Rightarrow> int \<times> int" where
  "ant_move width height ant_x ant_y heading =
     (if heading = 0 then (ant_x, (ant_y - 1) mod height)
      else if heading = 1 then ((ant_x + 1) mod width, ant_y)
      else if heading = 2 then (ant_x, (ant_y + 1) mod height)
      else ((ant_x - 1) mod width, ant_y))"


section \<open>Example inputs\<close>

text \<open>
  A grid of two rows with two enemies, the state \<^const>\<open>shooter_init\<close> builds from it and
  the state after one pass of the loop; a formation of three enemies in one row and four
  bullets under it; the all-zero grids of the scenarios; a formation of 221 enemies, one
  more than the chaos threshold.
\<close>

definition grid2 :: "int list list" where
  "grid2 = [[0, 1], [2, 0]]"

definition st_grid2 :: shooter_state where
  "st_grid2 = \<lparr>st_enemies = [((1, 0), 1), ((0, 1), 2)], st_width = 4, st_height = 32,
        st_ship_x = 2, st_ship_y = 30, st_formation_x = 1,
        st_formation_y = 2, st_enemy_direction = 1, st_bullets = [],
        st_cooldown = 0, st_fire_cooldown_ticks = 0, st_bullet_speed = 2,
        st_enemy_move_interval = 28, st_tick = 0, st_current_target_x = 2\<rparr>"

definition st_grid2_tick1 :: shooter_state where
  "st_grid2_tick1 = \<lparr>st_enemies = [((1, 0), 1), ((0, 1), 2)], st_width = 4, st_height = 32,
        st_ship_x = 1, st_ship_y = 30, st_formation_x = 1,
        st_formation_y = 2, st_enemy_direction = 1,
        st_bullets = [\<lparr>bullet_x = 1, bullet_y = 27\<rparr>], st_cooldown = 0,
        st_fire_cooldown_ticks = 0, st_bullet_speed = 2,
        st_enemy_move_interval = 28, st_tick = 1, st_current_target_x = 1\<rparr>"

definition formation3 :: enemies where
  "formation3 = [((0, 0), 1), ((2, 0), 1), ((1, 0), 3)]"

definition bullets4 :: "Bullet list" where
  "bullets4 = [\<lparr>bullet_x = 2, bullet_y = 4\<rparr>, \<lparr>bullet_x = 1, bullet_y = 3\<rparr>,
               \<lparr>bullet_x = 7, bullet_y = 9\<rparr>, \<lparr>bullet_x = 7, bullet_y = 1\<rparr>]"

definition grid3 :: "int list list" where
  "grid3 = [[0, 0, 0], [0, 0, 0], [0, 0, 0]]"

definition zeros7 :: "int list list" where
  "zeros7 = replicate 7 (replicate 7 0)"


section \<open>Ship motion\<close>

lemma move_ship_towards_range:
  "0 \<le> ship_x \<Longrightarrow> ship_x \<le> width - 1 \<Longrightarrow>
   0 \<le> move_ship_towards ship_x target_x width \<and> move_ship_towards ship_x target_x width \<le> width - 1"
  by (auto simp: move_ship_towards_def)

lemma move_ship_towards_step:
  assumes "0 \<le> ship_x" and "ship_x \<le> width - 1"
  shows "\<bar>move_ship_towards ship_x target_x width - ship_x\<bar> \<le> 1"
    and "target_x > ship_x \<Longrightarrow> ship_x \<le> move_ship_towards ship_x target_x width
           \<and> move_ship_towards ship_x target_x width \<le> target_x"
    and "target_x < ship_x \<Longrightarrow> target_x \<le> move_ship_towards ship_x target_x width
           \<and> move_ship_towards ship_x target_x width \<le> ship_x"
    and "target_x = ship_x \<Longrightarrow> move_ship_towards ship_x target_x width = ship_x"
    and "0 \<le> target_x \<Longrightarrow> target_x \<le> width - 1 \<Longrightarrow> target_x \<noteq> ship_x \<Longrightarrow>
           \<bar>target_x - move_ship_towards ship_x target_x width\<bar> = \<bar>target_x - ship_x\<bar> - 1"
  using assms by (auto simp: move_ship_towards_def)

lemma shooter_tick_ship:
  "shooter_tick st rnd randbelow = Inr st' \<Longrightarrow>
   st_width st' = st_width st \<and>
   st_ship_x st' = move_ship_towards (st_ship_x st) (st_current_target_x st') (st_width st)"
  by (auto simp: shooter_tick_def Let_def split: sum.splits prod.splits if_splits)

lemma shooter_init_ship:
  "shooter_init grid = Inr st \<Longrightarrow> 0 \<le> st_ship_x st \<and> st_ship_x st \<le> st_width st - 1"
  by (auto simp: shooter_init_def Let_def split: sum.splits if_splits)

lemma shooter_reachable_ship:
  "shooter_reachable grid st \<Longrightarrow> 0 \<le> st_ship_x st \<and> st_ship_x st \<le> st_width st - 1"
proof (induction rule: shooter_reachable.induct)
  case (reach_init grid st)
  then show ?case by (rule shooter_init_ship)
next
  case (reach_tick grid st rnd randbelow st')
  from shooter_tick_ship[OF reach_tick.hyps(2)] reach_tick.IH
  show ?case using move_ship_towards_range by simp
qed

lemma shooter_init_grid2: "shooter_init grid2 = Inr st_grid2"
  by code_simp

lemma shooter_tick_grid2: "shooter_tick st_grid2 0 (\<lambda>n. 0) = Inr st_grid2_tick1"
  by code_simp

text \<open>
  C8. A ship in a column of \<open>[0, width - 1]\<close> moves by at most one column in one call of
  \<^const>\<open>move_ship_towards\<close>, stays in \<open>[0, width - 1]\<close>, ends between its old column and
  the target (towards the target, never past it), and is one column closer when the
  target is another column of the grid. In every state of a run the ship is in
  \<open>[0, width - 1]\<close>, and a pass of the loop changes the ship's column by exactly this
  function, so by at most one.
\<close>

theorem ship_motion:
  "(0 \<le> ship_x \<and> ship_x \<le> width - 1 \<longrightarrow>
      \<bar>move_ship_towards ship_x target_x width - ship_x\<bar> \<le> 1
    \<and> 0 \<le> move_ship_towards ship_x target_x width
    \<and> move_ship_towards ship_x target_x width \<le> width - 1
    \<and> (target_x > ship_x \<longrightarrow> ship_x \<le> move_ship_towards ship_x target_x width
           \<and> move_ship_towards ship_x target_x width \<le> target_x)
    \<and> (target_x < ship_x \<longrightarrow> target_x \<le> move_ship_towards ship_x target_x width
           \<and> move_ship_towards ship_x target_x width \<le> ship_x)
    \<and> (target_x = ship_x \<longrightarrow> move_ship_towards ship_x target_x width = ship_x)
    \<and> (0 \<le> target_x \<and> target_x \<le> width - 1 \<and> target_x \<noteq> ship_x \<longrightarrow>
           \<bar>target_x - move_ship_towards ship_x target_x width\<bar> = \<bar>target_x - ship_x\<bar> - 1))
   \<and> (shooter_reachable grid st \<longrightarrow>
        0 \<le> st_ship_x st \<and> st_ship_x st \<le> st_width st - 1
      \<and> (\<forall>rnd randbelow st'. shooter_tick st rnd randbelow = Inr st' \<longrightarrow>
            st_width st' = st_width st
          \<and> st_ship_x st' =
              move_ship_towards (st_ship_x st) (st_current_target_x st') (st_width st)
          \<and> \<bar>st_ship_x st' - st_ship_x st\<bar> \<le> 1
          \<and> 0 \<le> st_ship_x st' \<and> st_ship_x st' \<le> st_width st' - 1))"
proof (intro conjI impI allI)
  assume r: "shooter_reachable grid st"
  show "0 \<le> st_ship_x st" "st_ship_x st \<le> st_width st - 1"
    using shooter_reachable_ship[OF r] by simp_all
  fix rnd randbelow st'
  assume t: "shooter_tick st rnd randbelow = Inr st'"
  have r': "shooter_reachable grid st'" by (rule reach_tick[OF r t])
  show "st_width st' = st_width st"
    "st_ship_x st' = move_ship_towards (st_ship_x st) (st_current_target_x st') (st_width st)"
    using shooter_tick_ship[OF t] by simp_all
  show "0 \<le> st_ship_x st'" "st_ship_x st' \<le> st_width st' - 1"
    using shooter_reachable_ship[OF r'] by simp_all
  show "\<bar>st_ship_x st' - st_ship_x st\<bar> \<le> 1"
    using shooter_tick_ship[OF t] shooter_reachable_ship[OF r]
      move_ship_towards_step(1)[of "st_ship_x st" "st_width st" "st_current_target_x st'"]
    by simp
qed (use move_ship_towards_step move_ship_towards_range in \<open>simp_all\<close>)

theorem ship_motion_witness:
  "(0::int) \<le> 2 \<and> (2::int) \<le> 4 - 1 \<and> move_ship_towards 2 1 4 = 1
   \<and> shooter_reachable grid2 st_grid2
   \<and> shooter_tick st_grid2 0 (\<lambda>n. 0) = Inr st_grid2_tick1
   \<and> st_ship_x st_grid2 = 2 \<and> st_ship_x st_grid2_tick1 = 1
   \<and> \<bar>st_ship_x st_grid2_tick1 - st_ship_x st_grid2\<bar> \<le> 1
   \<and> 0 \<le> st_ship_x st_grid2_tick1 \<and> st_ship_x st_grid2_tick1 \<le> st_width st_grid2_tick1 - 1"
proof -
  have r: "shooter_reachable grid2 st_grid2"
    by (rule reach_init) (rule shooter_init_grid2)
  have m: "move_ship_towards 2 1 4 = 1"
    by (simp add: move_ship_towards_def)
  have x: "st_ship_x st_grid2 = 2" "st_ship_x st_grid2_tick1 = 1"
    by (simp_all add: st_grid2_def st_grid2_tick1_def)
  from ship_motion[of 2 4 1 grid2 st_grid2] r shooter_tick_grid2 m x
  show ?thesis by auto
qed

section \<open>Targeting and formation pacing\<close>

lemma tuple3_less_irrefl: "\<not> tuple3_less a a"
  by (cases a) simp

lemma tuple3_less_trans: "tuple3_less a b \<Longrightarrow> tuple3_less b c \<Longrightarrow> tuple3_less a c"
  by (cases a; cases b; cases c) auto

lemma tuple3_not_less_trans: "\<not> tuple3_less a b \<Longrightarrow> tuple3_less a c \<Longrightarrow> \<not> tuple3_less c b"
  by (cases a; cases b; cases c) auto

lemma foldl_best_max:
  assumes "\<forall>v \<in> set seen. \<not> tuple3_less (key best) (key v)" and "best \<in> set seen"
  shows "\<exists>m \<in> set (seen @ vs).
           foldl (\<lambda>best e. if tuple3_less (key best) (key e) then e else best) best vs = m
           \<and> (\<forall>v \<in> set (seen @ vs). \<not> tuple3_less (key m) (key v))"
  using assms
proof (induction vs arbitrary: best seen)
  case Nil
  then show ?case by simp
next
  case (Cons e vs)
  let ?b = "if tuple3_less (key best) (key e) then e else best"
  have "\<forall>v \<in> set (seen @ [e]). \<not> tuple3_less (key ?b) (key v)"
  proof (cases "tuple3_less (key best) (key e)")
    case True
    then have "\<not> tuple3_less (key e) (key v)" if "v \<in> set seen" for v
      using Cons.prems(1) that tuple3_not_less_trans by blast
    with True show ?thesis by (simp add: tuple3_less_irrefl)
  next
    case False
    with Cons.prems(1) show ?thesis by simp
  qed
  moreover have "?b \<in> set (seen @ [e])" using Cons.prems(2) by simp
  ultimately show ?case
    using Cons.IH[where best = ?b and seen = "seen @ [e]"] by simp
qed

lemma py_max_key_greatest:
  assumes "vs \<noteq> []"
  shows "\<exists>m \<in> set vs. py_max_key key tuple3_less vs = Inr m
           \<and> (\<forall>v \<in> set vs. \<not> tuple3_less (key m) (key v))"
proof -
  from assms obtain v0 rest where vs: "vs = v0 # rest" by (cases vs) auto
  have "\<forall>v \<in> set [v0]. \<not> tuple3_less (key v0) (key v)" "v0 \<in> set [v0]"
    by (simp_all add: tuple3_less_irrefl)
  from foldl_best_max[OF this, of rest] show ?thesis
    by (simp add: vs)
qed

text \<open>
  C1. For a non-empty formation (every entry with at least one hit point), any anchor
  and any ship column, \<^const>\<open>pick_target_column\<close> returns the absolute column of an enemy
  of the formation whose key (absolute row, minus the horizontal distance to the ship,
  hit points) is lexicographically greatest: every enemy is in a lesser row, or in the
  same row and farther from the ship, or in the same row at the same distance with no
  more hit points.
\<close>

theorem pick_target_column_greatest:
  assumes "enemies \<noteq> []" and "\<forall>(rel, hp) \<in> set enemies. 1 \<le> hp"
  shows "\<exists>ex ey hp. ((ex, ey), hp) \<in> set enemies
           \<and> pick_target_column enemies formation_x formation_y ship_x = Inr (formation_x + ex)
           \<and> (\<forall>((ex', ey'), hp') \<in> set enemies.
                 formation_y + ey' < formation_y + ey
               \<or> (formation_y + ey' = formation_y + ey
                  \<and> (\<bar>formation_x + ex - ship_x\<bar> < \<bar>formation_x + ex' - ship_x\<bar>
                     \<or> (\<bar>formation_x + ex - ship_x\<bar> = \<bar>formation_x + ex' - ship_x\<bar>
                        \<and> hp' \<le> hp))))"
proof -
  let ?abs = "\<lambda>((ex, ey), hp). (formation_x + ex, formation_y + ey, hp)"
  let ?live = "filter (\<lambda>(_, hp). hp > 0) enemies"
  let ?cands = "map ?abs ?live"
  have live: "?live = enemies"
    using assms(2) by (intro filter_True) auto
  then have ne: "?cands \<noteq> []" using assms(1) by simp
  from py_max_key_greatest[OF ne, of "target_key ship_x"]
  obtain m where m: "m \<in> set ?cands" "py_max_key (target_key ship_x) tuple3_less ?cands = Inr m"
    and mx: "\<forall>v \<in> set ?cands. \<not> tuple3_less (target_key ship_x m) (target_key ship_x v)"
    by blast
  from m(1) live obtain ex ey hp where e: "((ex, ey), hp) \<in> set enemies"
    and me: "m = (formation_x + ex, formation_y + ey, hp)"
    by auto
  have "pick_target_column enemies formation_x formation_y ship_x = Inr (formation_x + ex)"
    using m(2) by (simp add: pick_target_column_def me)
  moreover have "formation_y + ey' < formation_y + ey
               \<or> (formation_y + ey' = formation_y + ey
                  \<and> (\<bar>formation_x + ex - ship_x\<bar> < \<bar>formation_x + ex' - ship_x\<bar>
                     \<or> (\<bar>formation_x + ex - ship_x\<bar> = \<bar>formation_x + ex' - ship_x\<bar>
                        \<and> hp' \<le> hp)))"
    if "((ex', ey'), hp') \<in> set enemies" for ex' ey' hp'
  proof -
    have "(formation_x + ex', formation_y + ey', hp') \<in> set ?cands"
      using that live by force
    with mx have "\<not> tuple3_less (target_key ship_x m)
        (target_key ship_x (formation_x + ex', formation_y + ey', hp'))" by blast
    then show ?thesis by (simp add: target_key_def me) linarith
  qed
  ultimately show ?thesis using e by blast
qed


theorem pick_target_column_greatest_witness:
  "formation3 \<noteq> [] \<and> list_all (\<lambda>(rel, hp). 1 \<le> hp) formation3
   \<and> pick_target_column formation3 1 2 2 = Inr 2
   \<and> (\<exists>ex ey hp. ((ex, ey), hp) \<in> set formation3
         \<and> pick_target_column formation3 1 2 2 = Inr (1 + ex)
         \<and> (\<forall>((ex', ey'), hp') \<in> set formation3.
               2 + ey' < 2 + ey
             \<or> (2 + ey' = 2 + ey
                \<and> (\<bar>1 + ex - 2\<bar> < \<bar>1 + ex' - 2\<bar>
                   \<or> (\<bar>1 + ex - 2\<bar> = \<bar>1 + ex' - 2\<bar> \<and> hp' \<le> hp)))))"
proof -
  have h: "formation3 \<noteq> []" "\<forall>(rel, hp) \<in> set formation3. 1 \<le> hp"
    by (simp_all add: formation3_def)
  have v: "pick_target_column formation3 1 2 2 = Inr 2"
    by code_simp
  have la: "list_all (\<lambda>(rel, hp). 1 \<le> hp) formation3"
    by (simp add: formation3_def)
  from h(1) la v pick_target_column_greatest[OF h, of 1 2 2] show ?thesis by blast
qed

lemma py_min_Min: "vs \<noteq> [] \<Longrightarrow> py_min vs = Inr (Min (set vs))"
proof (cases vs)
  case (Cons v rest)
  have "foldl min a rest = fold min rest a" for a :: int
    by (induction rest arbitrary: a) (simp_all add: min.commute)
  then show ?thesis by (simp add: Cons Min.set_eq_fold del: set_simps)
qed simp

lemma py_max_Max: "vs \<noteq> [] \<Longrightarrow> py_max vs = Inr (Max (set vs))"
proof (cases vs)
  case (Cons v rest)
  have "foldl max a rest = fold max rest a" for a :: int
    by (induction rest arbitrary: a) (simp_all add: max.commute)
  then show ?thesis by (simp add: Cons Max.set_eq_fold del: set_simps)
qed simp

lemma enemy_bounds_formation:
  assumes "enemies \<noteq> []" and "\<forall>(rel, hp) \<in> set enemies. 1 \<le> hp"
  shows "\<exists>min_y max_y. enemy_bounds enemies =
           Inr (Min ((\<lambda>((ex, ey), hp). ex) ` set enemies),
                Max ((\<lambda>((ex, ey), hp). ex) ` set enemies), min_y, max_y)"
proof -
  have live: "filter (\<lambda>(_, hp). hp > 0) enemies = enemies"
    using assms(2) by (intro filter_True) auto
  let ?xs = "map (\<lambda>((x, _), hp). x) enemies" and ?ys = "map (\<lambda>((_, y), hp). y) enemies"
  have xs: "?xs \<noteq> []" and ys: "?ys \<noteq> []"
    using assms(1) by simp_all
  have "enemy_bounds enemies = Inr (Min (set ?xs), Max (set ?xs), Min (set ?ys), Max (set ?ys))"
    unfolding enemy_bounds_def live Let_def
    by (simp only: py_min_Min[OF xs] py_max_Max[OF xs] py_min_Min[OF ys] py_max_Max[OF ys]
        sum.case)
  then show ?thesis by (simp del: Min.set_eq_fold Max.set_eq_fold)
qed

text \<open>
  C4. For a non-empty formation, any anchor and a direction of \<open>1\<close> or \<open>-1\<close>,
  \<^const>\<open>step_enemy_formation\<close> reverses the direction exactly when one more column in the
  current direction would put the leftmost or the rightmost enemy (equivalently: some
  enemy) at an absolute column outside \<open>[0, width - 1]\<close>. When it reverses, the anchor
  goes down one row and keeps its column; otherwise the anchor moves one column in the
  direction and keeps its row.
\<close>

theorem step_enemy_formation_bounce:
  assumes "enemies \<noteq> []" and "\<forall>(rel, hp) \<in> set enemies. 1 \<le> hp"
    and "direction = 1 \<or> direction = - 1"
  shows "\<exists>formation_x' formation_y' direction'.
           step_enemy_formation enemies width formation_x formation_y direction
             = Inr (formation_x', formation_y', direction')
         \<and> (direction' = direction \<or> direction' = - direction)
         \<and> (direction' = - direction \<longleftrightarrow>
              formation_x + Min ((\<lambda>((ex, ey), hp). ex) ` set enemies) + direction \<notin> {0 .. width - 1}
            \<or> formation_x + Max ((\<lambda>((ex, ey), hp). ex) ` set enemies) + direction \<notin> {0 .. width - 1})
         \<and> (direction' = - direction \<longleftrightarrow>
              (\<exists>((ex, ey), hp) \<in> set enemies. formation_x + ex + direction \<notin> {0 .. width - 1}))
         \<and> (direction' = - direction \<longrightarrow>
              formation_y' = formation_y + 1 \<and> formation_x' = formation_x)
         \<and> (direction' = direction \<longrightarrow>
              formation_x' = formation_x + direction \<and> formation_y' = formation_y)"
proof -
  let ?cols = "(\<lambda>((ex, ey), hp). ex) ` set enemies"
  have fin: "finite ?cols" and ne: "?cols \<noteq> {}" using assms(1) by simp_all
  from enemy_bounds_formation[OF assms(1,2)] obtain min_y max_y where
    b: "enemy_bounds enemies = Inr (Min ?cols, Max ?cols, min_y, max_y)" by blast
  have le: "Min ?cols \<le> Max ?cols" using fin ne by simp
  let ?hit = "formation_x + Max ?cols + direction \<ge> width \<or> formation_x + Min ?cols + direction < 0"
  have any: "(\<exists>((ex, ey), hp) \<in> set enemies. formation_x + ex + direction \<notin> {0 .. width - 1}) \<longleftrightarrow> ?hit"
  proof
    assume "\<exists>((ex, ey), hp) \<in> set enemies. formation_x + ex + direction \<notin> {0 .. width - 1}"
    then obtain ex ey hp where e: "((ex, ey), hp) \<in> set enemies"
      and out: "formation_x + ex + direction \<notin> {0 .. width - 1}" by auto
    from e have "ex \<in> ?cols" by force
    then have "Min ?cols \<le> ex" "ex \<le> Max ?cols" using fin by simp_all
    with out show ?hit by auto
  next
    assume h: ?hit
    have "Max ?cols \<in> ?cols" "Min ?cols \<in> ?cols" using fin ne by (simp_all del: set_map)
    then obtain x1 y1 h1 x2 y2 h2 where
      e1: "((x1, y1), h1) \<in> set enemies" "Max ?cols = x1" and
      e2: "((x2, y2), h2) \<in> set enemies" "Min ?cols = x2" by auto
    from h show "\<exists>((ex, ey), hp) \<in> set enemies. formation_x + ex + direction \<notin> {0 .. width - 1}"
    proof
      assume "formation_x + Max ?cols + direction \<ge> width"
      with e1 show ?thesis by (intro bexI[of _ "((x1, y1), h1)"]) auto
    next
      assume "formation_x + Min ?cols + direction < 0"
      with e2 show ?thesis by (intro bexI[of _ "((x2, y2), h2)"]) auto
    qed
  qed
  show ?thesis
  proof (cases ?hit)
    case True
    then have "step_enemy_formation enemies width formation_x formation_y direction
        = Inr (formation_x, formation_y + 1, - direction)"
      using assms(1) b by (auto simp add: step_enemy_formation_def)
    then show ?thesis using True any assms(3) le by auto
  next
    case False
    then have "step_enemy_formation enemies width formation_x formation_y direction
        = Inr (formation_x + direction, formation_y, direction)"
      using assms(1) b by (simp add: step_enemy_formation_def)
    then show ?thesis using False any assms(3) le by auto
  qed
qed



theorem step_enemy_formation_bounce_witness:
  "formation3 \<noteq> [] \<and> list_all (\<lambda>(rel, hp). 1 \<le> hp) formation3
   \<and> ((1::int) = 1 \<or> (1::int) = - 1)
   \<and> step_enemy_formation formation3 4 1 2 1 = Inr (1, 3, - 1)
   \<and> step_enemy_formation formation3 4 0 2 1 = Inr (1, 2, 1)
   \<and> (\<exists>formation_x' formation_y' direction'.
           step_enemy_formation formation3 4 1 2 1 = Inr (formation_x', formation_y', direction')
         \<and> (direction' = 1 \<or> direction' = - 1)
         \<and> (direction' = - 1 \<longleftrightarrow>
              1 + Min ((\<lambda>((ex, ey), hp). ex) ` set formation3) + 1 \<notin> {0 .. 4 - 1}
            \<or> 1 + Max ((\<lambda>((ex, ey), hp). ex) ` set formation3) + 1 \<notin> {0 .. 4 - 1})
         \<and> (direction' = - 1 \<longleftrightarrow>
              (\<exists>((ex, ey), hp) \<in> set formation3. 1 + ex + 1 \<notin> {0 .. 4 - 1}))
         \<and> (direction' = - 1 \<longrightarrow> formation_y' = 2 + 1 \<and> formation_x' = 1)
         \<and> (direction' = 1 \<longrightarrow> formation_x' = 1 + 1 \<and> formation_y' = 2))"
proof -
  have h: "formation3 \<noteq> []" "\<forall>(rel, hp) \<in> set formation3. 1 \<le> hp" "(1::int) = 1 \<or> (1::int) = - 1"
    by (simp_all add: formation3_def)
  have v: "step_enemy_formation formation3 4 1 2 1 = Inr (1, 3, - 1)"
    "step_enemy_formation formation3 4 0 2 1 = Inr (1, 2, 1)"
    by code_simp+
  have la: "list_all (\<lambda>(rel, hp). 1 \<le> hp) formation3"
    by (simp add: formation3_def)
  from h(1,3) la v step_enemy_formation_bounce[OF h, of 4 1 2] show ?thesis by blast
qed

section \<open>The automaton step\<close>

lemma py_getitem_in_range:
  "0 \<le> i \<Longrightarrow> i < int (length xs) \<Longrightarrow> py_getitem xs i = Inr (xs ! nat i)"
  by (simp add: py_getitem_def py_norm_index_def)

lemma py_setitem_in_range:
  "0 \<le> i \<Longrightarrow> i < int (length xs) \<Longrightarrow> py_setitem xs i v = Inr (xs[nat i := v])"
  by (simp add: py_setitem_def py_norm_index_def)

lemma turns_lookup:
  "0 \<le> l \<Longrightarrow> l \<le> 4 \<Longrightarrow>
   py_getitem turns l = Inr (if l = 0 \<or> l = 2 \<or> l = 4 then 1 else - 1)"
proof -
  assume "0 \<le> l" "l \<le> 4"
  then have "l = 0 \<or> l = 1 \<or> l = 2 \<or> l = 3 \<or> l = 4" by arith
  then show ?thesis
    by (elim disjE) (simp_all add: py_getitem_def py_norm_index_def turns_def)
qed

lemma step_ant_result:
  assumes rows: "\<forall>row \<in> set grid. int (length row) = width"
    and w: "0 < width"
    and x: "0 \<le> ant_x" "ant_x < width"
    and y: "0 \<le> ant_y" "ant_y < int (length grid)"
    and l: "0 \<le> grid ! nat ant_y ! nat ant_x" "grid ! nat ant_y ! nat ant_x \<le> 4"
  shows "step_ant grid ant_x ant_y direction =
     (let level = grid ! nat ant_y ! nat ant_x;
          heading = (direction + (if level = 0 \<or> level = 2 \<or> level = 4 then 1 else - 1)) mod 4;
          (ant_x', ant_y') = ant_move width (int (length grid)) ant_x ant_y heading
      in Inr (grid[nat ant_y := (grid ! nat ant_y)[nat ant_x := (level + 1) mod 5]],
              ant_x', ant_y', heading))"
proof -
  from y have ne: "grid \<noteq> []" by auto
  then have g0: "py_getitem grid 0 = Inr (grid ! 0)"
    by (simp add: py_getitem_def py_norm_index_def)
  have "grid ! 0 \<in> set grid" using ne by simp
  with rows have w0: "int (length (grid ! 0)) = width" by blast
  have gy: "py_getitem grid ant_y = Inr (grid ! nat ant_y)"
    using y by (rule py_getitem_in_range)
  have "grid ! nat ant_y \<in> set grid" using y by simp
  with rows have wy: "int (length (grid ! nat ant_y)) = width" by blast
  have gx: "py_getitem (grid ! nat ant_y) ant_x = Inr (grid ! nat ant_y ! nat ant_x)"
    using x wy by (simp add: py_getitem_in_range)
  have sx: "py_setitem (grid ! nat ant_y) ant_x v = Inr ((grid ! nat ant_y)[nat ant_x := v])" for v
    using x wy by (simp add: py_setitem_in_range)
  have sy: "py_setitem grid ant_y r = Inr (grid[nat ant_y := r])" for r
    using y by (rule py_setitem_in_range)
  have h: "int (length grid) \<noteq> 0" using ne by simp
  have w': "width \<noteq> 0" using w by simp
  define level where "level = grid ! nat ant_y ! nat ant_x"
  define turn :: int where "turn = (if level = 0 \<or> level = 2 \<or> level = 4 then 1 else - 1)"
  define heading where "heading = (direction + turn) mod 4"
  have gx': "py_getitem (grid ! nat ant_y) ant_x = Inr level"
    using gx by (simp add: level_def)
  have t: "py_getitem turns level = Inr turn"
    unfolding turn_def level_def by (rule turns_lookup[OF l])
  have p: "int (length PALETTE) = 5" by (simp add: PALETTE_def)
  have m: "py_mod a (int (length grid)) = Inr (a mod int (length grid))"
    "py_mod a width = Inr (a mod width)" for a
    using h w' by (simp_all add: py_mod_def)
  have "step_ant grid ant_x ant_y direction =
      (case ant_move width (int (length grid)) ant_x ant_y heading of
         (ant_x', ant_y') \<Rightarrow>
           Inr (grid[nat ant_y := (grid ! nat ant_y)[nat ant_x := (level + 1) mod 5]],
                ant_x', ant_y', heading))"
    unfolding step_ant_def Let_def g0 gy gx' sx sy w0 t p m sum.case ant_move_def
      heading_def[symmetric]
    by simp
  then show ?thesis
    by (simp add: Let_def level_def turn_def heading_def)
qed


lemma ant_move_in_range:
  assumes "0 < width" "0 < height" "0 \<le> ant_x" "ant_x < width" "0 \<le> ant_y" "ant_y < height"
    and "ant_move width height ant_x ant_y heading = (ant_x', ant_y')"
  shows "0 \<le> ant_x' \<and> ant_x' < width \<and> 0 \<le> ant_y' \<and> ant_y' < height"
  using assms by (auto simp: ant_move_def split: if_splits)

lemma grid_update_ok:
  assumes rows: "\<forall>row \<in> set grid. int (length row) = width \<and> (\<forall>l \<in> set row. 0 \<le> l \<and> l \<le> 4)"
    and j: "j < length grid" and v: "0 \<le> v" "v \<le> 4"
  shows "\<forall>row \<in> set (grid[j := (grid ! j)[i := v]]).
           int (length row) = width \<and> (\<forall>l \<in> set row. 0 \<le> l \<and> l \<le> 4)"
proof
  fix row assume "row \<in> set (grid[j := (grid ! j)[i := v]])"
  then have "row = (grid ! j)[i := v] \<or> row \<in> set grid"
    using set_update_subset_insert[of grid j "(grid ! j)[i := v]"] by auto
  then show "int (length row) = width \<and> (\<forall>l \<in> set row. 0 \<le> l \<and> l \<le> 4)"
  proof
    assume r: "row = (grid ! j)[i := v]"
    have gj: "grid ! j \<in> set grid" using j by simp
    have "l = v \<or> l \<in> set (grid ! j)" if "l \<in> set row" for l
      using that set_update_subset_insert[of "grid ! j" i v] unfolding r by auto
    with rows gj v show ?thesis unfolding r by fastforce
  next
    assume "row \<in> set grid"
    with rows show ?thesis by blast
  qed
qed

lemma step_ant_ok:
  assumes rows: "\<forall>row \<in> set grid. int (length row) = width \<and> (\<forall>l \<in> set row. 0 \<le> l \<and> l \<le> 4)"
    and w: "0 < width"
    and x: "0 \<le> ant_x" "ant_x < width"
    and y: "0 \<le> ant_y" "ant_y < int (length grid)"
  shows "\<exists>grid' ant_x' ant_y' heading.
           step_ant grid ant_x ant_y direction = Inr (grid', ant_x', ant_y', heading)
         \<and> length grid' = length grid
         \<and> (\<forall>row \<in> set grid'. int (length row) = width \<and> (\<forall>l \<in> set row. 0 \<le> l \<and> l \<le> 4))
         \<and> 0 \<le> ant_x' \<and> ant_x' < width \<and> 0 \<le> ant_y' \<and> ant_y' < int (length grid')"
proof -
  have gy: "grid ! nat ant_y \<in> set grid" using y by simp
  with rows have "int (length (grid ! nat ant_y)) = width" by blast
  with x have "nat ant_x < length (grid ! nat ant_y)" by simp
  then have "grid ! nat ant_y ! nat ant_x \<in> set (grid ! nat ant_y)" by (rule nth_mem)
  with rows gy have l: "0 \<le> grid ! nat ant_y ! nat ant_x" "grid ! nat ant_y ! nat ant_x \<le> 4"
    by blast+
  have rows': "\<forall>row \<in> set grid. int (length row) = width" using rows by blast
  define level where "level = grid ! nat ant_y ! nat ant_x"
  define heading where
    "heading = (direction + (if level = 0 \<or> level = 2 \<or> level = 4 then 1 else - 1)) mod 4"
  obtain ant_x' ant_y' where mv: "ant_move width (int (length grid)) ant_x ant_y heading = (ant_x', ant_y')"
    by (cases "ant_move width (int (length grid)) ant_x ant_y heading")
  have s: "step_ant grid ant_x ant_y direction =
      Inr (grid[nat ant_y := (grid ! nat ant_y)[nat ant_x := (level + 1) mod 5]],
           ant_x', ant_y', heading)"
    using step_ant_result[OF rows' w x y l, of direction] mv
    by (simp add: Let_def level_def heading_def)
  have h: "0 < int (length grid)" using y by linarith
  have v: "0 \<le> (level + 1) mod 5" "(level + 1) mod 5 \<le> 4" by simp_all
  have j: "nat ant_y < length grid" using y by linarith
  let ?g = "grid[nat ant_y := (grid ! nat ant_y)[nat ant_x := (level + 1) mod 5]]"
  have ok: "\<forall>row \<in> set ?g. int (length row) = width \<and> (\<forall>l \<in> set row. 0 \<le> l \<and> l \<le> 4)"
    by (rule grid_update_ok[OF rows j v])
  have len: "length ?g = length grid" by (rule length_list_update)
  have pos: "0 \<le> ant_x' \<and> ant_x' < width \<and> 0 \<le> ant_y' \<and> ant_y' < int (length ?g)"
    unfolding len by (rule ant_move_in_range[OF w h x y mv])
  from s len ok pos show ?thesis by blast
qed

lemma run_ant_ok:
  assumes "\<forall>row \<in> set grid. int (length row) = width \<and> (\<forall>l \<in> set row. 0 \<le> l \<and> l \<le> 4)"
    and "0 < width"
    and "0 \<le> ant_x" "ant_x < width"
    and "0 \<le> ant_y" "ant_y < int (length grid)"
  shows "\<exists>grid' ant_x' ant_y' heading.
           run_ant n grid ant_x ant_y direction = Inr (grid', ant_x', ant_y', heading)
         \<and> length grid' = length grid
         \<and> (\<forall>row \<in> set grid'. int (length row) = width \<and> (\<forall>l \<in> set row. 0 \<le> l \<and> l \<le> 4))
         \<and> 0 \<le> ant_x' \<and> ant_x' < width \<and> 0 \<le> ant_y' \<and> ant_y' < int (length grid')"
  using assms
proof (induction n arbitrary: grid ant_x ant_y direction)
  case 0
  then show ?case by simp
next
  case (Suc n)
  from step_ant_ok[OF Suc.prems, of direction] obtain g1 x1 y1 d1 where
    s: "step_ant grid ant_x ant_y direction = Inr (g1, x1, y1, d1)"
    and len: "length g1 = length grid"
    and ok: "\<forall>row \<in> set g1. int (length row) = width \<and> (\<forall>l \<in> set row. 0 \<le> l \<and> l \<le> 4)"
    and pos: "0 \<le> x1" "x1 < width" "0 \<le> y1" "y1 < int (length g1)"
    by blast
  from Suc.IH[OF ok Suc.prems(2) pos, of d1] obtain g2 x2 y2 d2 where
    r: "run_ant n g1 x1 y1 d1 = Inr (g2, x2, y2, d2)"
    and len2: "length g2 = length g1"
    and ok2: "\<forall>row \<in> set g2. int (length row) = width \<and> (\<forall>l \<in> set row. 0 \<le> l \<and> l \<le> 4)"
    and pos2: "0 \<le> x2 \<and> x2 < width \<and> 0 \<le> y2 \<and> y2 < int (length g2)"
    by blast
  have "run_ant (Suc n) grid ant_x ant_y direction = Inr (g2, x2, y2, d2)"
    by (simp add: s r)
  moreover have "length g2 = length grid" using len len2 by simp
  ultimately show ?case using ok2 pos2 by blast
qed


text \<open>
  C3. On a grid whose rows all have \<open>width\<close> cells with levels in \<open>0..4\<close>, with the
  agent on a cell of the grid and any heading, \<^const>\<open>step_ant\<close> returns: the heading is
  turned right (\<open>+1 mod 4\<close>) when the cell's level is 0, 2 or 4 and left (\<open>-1 mod 4\<close>)
  when it is 1 or 3; the cell's level becomes \<open>(L + 1) mod 5\<close>; the agent moves one cell
  in the new heading (0 up, 1 right, 2 down, 3 left), wrapping on both axes; the new
  position is in \<open>[0, width - 1] \<times> [0, height - 1]\<close> and every level is still in \<open>0..4\<close>.
  The same bounds hold after any number of steps.
\<close>

theorem step_ant_transition:
  assumes rows: "\<forall>row \<in> set grid. int (length row) = width \<and> (\<forall>l \<in> set row. 0 \<le> l \<and> l \<le> 4)"
    and w: "0 < width"
    and x: "0 \<le> ant_x" "ant_x < width"
    and y: "0 \<le> ant_y" "ant_y < int (length grid)"
  shows "\<exists>grid' ant_x' ant_y' heading.
           step_ant grid ant_x ant_y direction = Inr (grid', ant_x', ant_y', heading)
         \<and> (grid ! nat ant_y ! nat ant_x \<in> {0, 2, 4} \<longrightarrow> heading = (direction + 1) mod 4)
         \<and> (grid ! nat ant_y ! nat ant_x \<in> {1, 3} \<longrightarrow> heading = (direction - 1) mod 4)
         \<and> grid' ! nat ant_y ! nat ant_x = (grid ! nat ant_y ! nat ant_x + 1) mod 5
         \<and> (heading = 0 \<longrightarrow> ant_x' = ant_x \<and> ant_y' = (ant_y - 1) mod int (length grid))
         \<and> (heading = 1 \<longrightarrow> ant_x' = (ant_x + 1) mod width \<and> ant_y' = ant_y)
         \<and> (heading = 2 \<longrightarrow> ant_x' = ant_x \<and> ant_y' = (ant_y + 1) mod int (length grid))
         \<and> (heading = 3 \<longrightarrow> ant_x' = (ant_x - 1) mod width \<and> ant_y' = ant_y)
         \<and> heading \<in> {0, 1, 2, 3}
         \<and> 0 \<le> ant_x' \<and> ant_x' < width \<and> 0 \<le> ant_y' \<and> ant_y' < int (length grid)
         \<and> length grid' = length grid
         \<and> (\<forall>row \<in> set grid'. int (length row) = width \<and> (\<forall>l \<in> set row. 0 \<le> l \<and> l \<le> 4))
         \<and> (\<forall>n. \<exists>grid_n x_n y_n heading_n.
               run_ant n grid ant_x ant_y direction = Inr (grid_n, x_n, y_n, heading_n)
             \<and> 0 \<le> x_n \<and> x_n < width \<and> 0 \<le> y_n \<and> y_n < int (length grid)
             \<and> (\<forall>row \<in> set grid_n. int (length row) = width \<and> (\<forall>l \<in> set row. 0 \<le> l \<and> l \<le> 4)))"
proof -
  have gy: "grid ! nat ant_y \<in> set grid" using y by simp
  with rows have wy: "int (length (grid ! nat ant_y)) = width" by blast
  with x have ix: "nat ant_x < length (grid ! nat ant_y)" by simp
  then have "grid ! nat ant_y ! nat ant_x \<in> set (grid ! nat ant_y)" by (rule nth_mem)
  with rows gy have l: "0 \<le> grid ! nat ant_y ! nat ant_x" "grid ! nat ant_y ! nat ant_x \<le> 4"
    by blast+
  have iy: "nat ant_y < length grid" using y by linarith
  have rows': "\<forall>row \<in> set grid. int (length row) = width" using rows by blast
  define level where "level = grid ! nat ant_y ! nat ant_x"
  define heading where
    "heading = (direction + (if level = 0 \<or> level = 2 \<or> level = 4 then 1 else - 1)) mod 4"
  obtain ant_x' ant_y' where mv: "ant_move width (int (length grid)) ant_x ant_y heading = (ant_x', ant_y')"
    by (cases "ant_move width (int (length grid)) ant_x ant_y heading")
  let ?g = "grid[nat ant_y := (grid ! nat ant_y)[nat ant_x := (level + 1) mod 5]]"
  have s: "step_ant grid ant_x ant_y direction = Inr (?g, ant_x', ant_y', heading)"
    using step_ant_result[OF rows' w x y l, of direction] mv
    by (simp add: Let_def level_def heading_def)
  have hp: "0 < int (length grid)" using y by linarith
  have v: "0 \<le> (level + 1) mod 5" "(level + 1) mod 5 \<le> 4" by simp_all
  have ok1: "length ?g = length grid" by (rule length_list_update)
  have ok2: "\<forall>row \<in> set ?g. int (length row) = width \<and> (\<forall>l \<in> set row. 0 \<le> l \<and> l \<le> 4)"
    by (rule grid_update_ok[OF rows iy v])
  have ok3: "0 \<le> ant_x' \<and> ant_x' < width \<and> 0 \<le> ant_y' \<and> ant_y' < int (length grid)"
    by (rule ant_move_in_range[OF w hp x y mv])
  have h1: "level \<in> {0, 2, 4} \<longrightarrow> heading = (direction + 1) mod 4"
    by (auto simp: heading_def)
  have h2: "level \<in> {1, 3} \<longrightarrow> heading = (direction - 1) mod 4"
    by (auto simp: heading_def)
  have c: "?g ! nat ant_y ! nat ant_x = (level + 1) mod 5"
    using iy ix by simp
  have m0: "heading = 0 \<longrightarrow> ant_x' = ant_x \<and> ant_y' = (ant_y - 1) mod int (length grid)"
    and m1: "heading = 1 \<longrightarrow> ant_x' = (ant_x + 1) mod width \<and> ant_y' = ant_y"
    and m2: "heading = 2 \<longrightarrow> ant_x' = ant_x \<and> ant_y' = (ant_y + 1) mod int (length grid)"
    and m3: "heading = 3 \<longrightarrow> ant_x' = (ant_x - 1) mod width \<and> ant_y' = ant_y"
    using mv by (auto simp: ant_move_def)
  have "0 \<le> heading" "heading < 4" by (simp_all add: heading_def)
  then have hr: "heading \<in> {0, 1, 2, 3}" by auto
  have run: "\<forall>n. \<exists>grid_n x_n y_n heading_n.
               run_ant n grid ant_x ant_y direction = Inr (grid_n, x_n, y_n, heading_n)
             \<and> 0 \<le> x_n \<and> x_n < width \<and> 0 \<le> y_n \<and> y_n < int (length grid)
             \<and> (\<forall>row \<in> set grid_n. int (length row) = width \<and> (\<forall>l \<in> set row. 0 \<le> l \<and> l \<le> 4))"
  proof
    fix n
    from run_ant_ok[OF rows w x y, of n direction] obtain g2 x2 y2 d2 where
      r: "run_ant n grid ant_x ant_y direction = Inr (g2, x2, y2, d2)"
      and len2: "length g2 = length grid"
      and ok2: "\<forall>row \<in> set g2. int (length row) = width \<and> (\<forall>l \<in> set row. 0 \<le> l \<and> l \<le> 4)"
      and pos2: "0 \<le> x2 \<and> x2 < width \<and> 0 \<le> y2 \<and> y2 < int (length g2)"
      by blast
    from pos2 have "0 \<le> x2 \<and> x2 < width \<and> 0 \<le> y2 \<and> y2 < int (length grid)"
      unfolding len2 .
    with r ok2 show "\<exists>grid_n x_n y_n heading_n.
               run_ant n grid ant_x ant_y direction = Inr (grid_n, x_n, y_n, heading_n)
             \<and> 0 \<le> x_n \<and> x_n < width \<and> 0 \<le> y_n \<and> y_n < int (length grid)
             \<and> (\<forall>row \<in> set grid_n. int (length row) = width \<and> (\<forall>l \<in> set row. 0 \<le> l \<and> l \<le> 4))"
      by blast
  qed
  have h1': "grid ! nat ant_y ! nat ant_x \<in> {0, 2, 4} \<longrightarrow> heading = (direction + 1) mod 4"
    and h2': "grid ! nat ant_y ! nat ant_x \<in> {1, 3} \<longrightarrow> heading = (direction - 1) mod 4"
    and c': "?g ! nat ant_y ! nat ant_x = (grid ! nat ant_y ! nat ant_x + 1) mod 5"
    using h1 h2 c unfolding level_def by blast+
  show ?thesis
    apply (rule exI[of _ ?g], rule exI[of _ ant_x'], rule exI[of _ ant_y'], rule exI[of _ heading])
    apply (intro conjI)
    apply (rule s h1' h2' c' m0 m1 m2 m3 hr ok1 ok2 run | rule ok3[THEN conjunct1]
       | rule ok3[THEN conjunct2, THEN conjunct1]
       | rule ok3[THEN conjunct2, THEN conjunct2, THEN conjunct1]
       | rule ok3[THEN conjunct2, THEN conjunct2, THEN conjunct2])+
    done
qed


lemma mod5_succ_neq: "(l + 1) mod 5 \<noteq> (l::int)"
  by presburger

text \<open>
  C10. On a grid whose rows all have \<open>width\<close> cells, with the agent on a cell of the grid
  whose level is in \<open>0..4\<close>, \<^const>\<open>step_ant\<close> changes the level of the cell the agent
  starts on, leaves the level of every other cell as it was, and keeps the number of
  rows and the length of every row.
\<close>

theorem step_ant_frame:
  assumes rows: "\<forall>row \<in> set grid. int (length row) = width"
    and w: "0 < width"
    and x: "0 \<le> ant_x" "ant_x < width"
    and y: "0 \<le> ant_y" "ant_y < int (length grid)"
    and l: "0 \<le> grid ! nat ant_y ! nat ant_x" "grid ! nat ant_y ! nat ant_x \<le> 4"
  shows "\<exists>grid' ant_x' ant_y' heading.
           step_ant grid ant_x ant_y direction = Inr (grid', ant_x', ant_y', heading)
         \<and> length grid' = length grid
         \<and> (\<forall>j < length grid. length (grid' ! j) = length (grid ! j))
         \<and> grid' ! nat ant_y ! nat ant_x \<noteq> grid ! nat ant_y ! nat ant_x
         \<and> (\<forall>j i. j < length grid \<longrightarrow> i < length (grid ! j) \<longrightarrow>
                (j, i) \<noteq> (nat ant_y, nat ant_x) \<longrightarrow> grid' ! j ! i = grid ! j ! i)"
proof -
  have iy: "nat ant_y < length grid" using y by linarith
  then have "grid ! nat ant_y \<in> set grid" by (rule nth_mem)
  with rows have "int (length (grid ! nat ant_y)) = width" by blast
  with x have ix: "nat ant_x < length (grid ! nat ant_y)" by simp
  define level where "level = grid ! nat ant_y ! nat ant_x"
  define heading where
    "heading = (direction + (if level = 0 \<or> level = 2 \<or> level = 4 then 1 else - 1)) mod 4"
  define row' where "row' = (grid ! nat ant_y)[nat ant_x := (level + 1) mod 5]"
  obtain ant_x' ant_y' where mv: "ant_move width (int (length grid)) ant_x ant_y heading = (ant_x', ant_y')"
    by (cases "ant_move width (int (length grid)) ant_x ant_y heading")
  let ?g = "grid[nat ant_y := row']"
  have s: "step_ant grid ant_x ant_y direction = Inr (?g, ant_x', ant_y', heading)"
    using step_ant_result[OF rows w x y l, of direction] mv
    by (simp add: Let_def level_def heading_def row'_def)
  have len: "length ?g = length grid" by (rule length_list_update)
  have gy: "?g ! nat ant_y = row'" using iy by (rule nth_list_update_eq)
  have go: "?g ! j = grid ! j" if "j \<noteq> nat ant_y" for j
    using that by (simp add: nth_list_update_neq)
  have rlen: "length row' = length (grid ! nat ant_y)" by (simp add: row'_def)
  have rows_len: "\<forall>j < length grid. length (?g ! j) = length (grid ! j)"
  proof (intro allI impI)
    fix j assume "j < length grid"
    show "length (?g ! j) = length (grid ! j)"
    proof (cases "j = nat ant_y")
      case True
      show ?thesis unfolding True gy by (rule rlen)
    next
      case False
      show ?thesis unfolding go[OF False] ..
    qed
  qed
  have "row' ! nat ant_x = (level + 1) mod 5"
    unfolding row'_def using ix by (rule nth_list_update_eq)
  then have changed: "?g ! nat ant_y ! nat ant_x \<noteq> grid ! nat ant_y ! nat ant_x"
    unfolding gy using mod5_succ_neq[of level] by (simp add: level_def)
  have others: "\<forall>j i. j < length grid \<longrightarrow> i < length (grid ! j) \<longrightarrow>
                (j, i) \<noteq> (nat ant_y, nat ant_x) \<longrightarrow> ?g ! j ! i = grid ! j ! i"
  proof (intro allI impI)
    fix j i assume ne: "(j, i) \<noteq> (nat ant_y, nat ant_x)"
    show "?g ! j ! i = grid ! j ! i"
    proof (cases "j = nat ant_y")
      case True
      with ne have "i \<noteq> nat ant_x" by simp
      then have "row' ! i = grid ! nat ant_y ! i"
        unfolding row'_def by (simp add: nth_list_update_neq)
      then show ?thesis unfolding True gy .
    next
      case False
      show ?thesis unfolding go[OF False] ..
    qed
  qed
  from s len rows_len changed others show ?thesis by blast
qed

lemma step_ant_grid3:
  "step_ant grid3 0 0 1 = Inr ([[1, 0, 0], [0, 0, 0], [0, 0, 0]], 0, 1, 2)"
  by code_simp


lemma grid3_rows:
  "\<forall>row \<in> set grid3. int (length row) = 3 \<and> (\<forall>l \<in> set row. 0 \<le> l \<and> l \<le> 4)"
  by (simp add: grid3_def)

theorem step_ant_transition_witness:
  "list_all (\<lambda>row. int (length row) = 3 \<and> list_all (\<lambda>l. 0 \<le> l \<and> l \<le> 4) row) grid3
   \<and> (0::int) < 3 \<and> (0::int) \<le> 0 \<and> (0::int) < int (length grid3)
   \<and> step_ant grid3 0 0 1 = Inr ([[1, 0, 0], [0, 0, 0], [0, 0, 0]], 0, 1, 2)
   \<and> (\<exists>grid' ant_x' ant_y' heading.
         step_ant grid3 0 0 1 = Inr (grid', ant_x', ant_y', heading)
       \<and> heading = (1 + 1) mod 4
       \<and> grid' ! 0 ! 0 = (0 + 1) mod 5
       \<and> ant_x' = 0 \<and> ant_y' = (0 + 1) mod 3
       \<and> (\<forall>row \<in> set grid'. int (length row) = 3 \<and> (\<forall>l \<in> set row. 0 \<le> l \<and> l \<le> 4)))
   \<and> (\<exists>grid_n x_n y_n heading_n.
         run_ant 5 grid3 0 0 1 = Inr (grid_n, x_n, y_n, heading_n)
       \<and> 0 \<le> x_n \<and> x_n < 3 \<and> 0 \<le> y_n \<and> y_n < 3)"
proof -
  have h: "(0::int) < 3" "(0::int) \<le> 0" "(0::int) < 3" "(0::int) \<le> 0" "(0::int) < int (length grid3)"
    by (simp_all add: grid3_def)
  have c: "grid3 ! 0 ! 0 = 0" "int (length grid3) = 3"
    by (simp_all add: grid3_def)
  from step_ant_transition[OF grid3_rows h, of 1] obtain grid' ant_x' ant_y' heading where
    s: "step_ant grid3 0 0 1 = Inr (grid', ant_x', ant_y', heading)"
    and f: "grid3 ! nat 0 ! nat 0 \<in> {0, 2, 4} \<longrightarrow> heading = (1 + 1) mod 4"
      "grid' ! nat 0 ! nat 0 = (grid3 ! nat 0 ! nat 0 + 1) mod 5"
      "heading = 2 \<longrightarrow> ant_x' = 0 \<and> ant_y' = (0 + 1) mod int (length grid3)"
      "\<forall>row \<in> set grid'. int (length row) = 3 \<and> (\<forall>l \<in> set row. 0 \<le> l \<and> l \<le> 4)"
    and r: "\<forall>n. \<exists>grid_n x_n y_n heading_n.
               run_ant n grid3 0 0 1 = Inr (grid_n, x_n, y_n, heading_n)
             \<and> 0 \<le> x_n \<and> x_n < 3 \<and> 0 \<le> y_n \<and> y_n < int (length grid3)
             \<and> (\<forall>row \<in> set grid_n. int (length row) = 3 \<and> (\<forall>l \<in> set row. 0 \<le> l \<and> l \<le> 4))"
    apply (elim exE conjE)
    apply (rule that)
    apply assumption+
    done
  from f(1) have hd: "heading = (1 + 1) mod 4" by (simp add: c)
  with f(3) have p: "ant_x' = 0 \<and> ant_y' = (0 + 1) mod 3" by (simp add: c)
  from f(2) have g: "grid' ! 0 ! 0 = (0 + 1) mod 5" by (simp add: c)
  have 1: "\<exists>grid' ant_x' ant_y' heading.
         step_ant grid3 0 0 1 = Inr (grid', ant_x', ant_y', heading)
       \<and> heading = (1 + 1) mod 4
       \<and> grid' ! 0 ! 0 = (0 + 1) mod 5
       \<and> ant_x' = 0 \<and> ant_y' = (0 + 1) mod 3
       \<and> (\<forall>row \<in> set grid'. int (length row) = 3 \<and> (\<forall>l \<in> set row. 0 \<le> l \<and> l \<le> 4))"
    using s hd g p f(4) by blast
  from r[rule_format, of 5] have 2: "\<exists>grid_n x_n y_n heading_n.
         run_ant 5 grid3 0 0 1 = Inr (grid_n, x_n, y_n, heading_n)
       \<and> 0 \<le> x_n \<and> x_n < 3 \<and> 0 \<le> y_n \<and> y_n < 3"
    unfolding c by blast
  have la: "list_all (\<lambda>row. int (length row) = 3 \<and> list_all (\<lambda>l. 0 \<le> l \<and> l \<le> 4) row) grid3"
    by (simp add: grid3_def)
  from la h step_ant_grid3 1 2 show ?thesis by blast
qed

theorem step_ant_frame_witness:
  "list_all (\<lambda>row. int (length row) = 3) grid3
   \<and> (0::int) < 3 \<and> (0::int) \<le> 0 \<and> (0::int) < int (length grid3)
   \<and> 0 \<le> grid3 ! nat 0 ! nat 0 \<and> grid3 ! nat 0 ! nat 0 \<le> 4
   \<and> step_ant grid3 0 0 1 = Inr ([[1, 0, 0], [0, 0, 0], [0, 0, 0]], 0, 1, 2)
   \<and> (\<exists>grid' ant_x' ant_y' heading.
           step_ant grid3 0 0 1 = Inr (grid', ant_x', ant_y', heading)
         \<and> length grid' = length grid3
         \<and> (\<forall>j < length grid3. length (grid' ! j) = length (grid3 ! j))
         \<and> grid' ! nat 0 ! nat 0 \<noteq> grid3 ! nat 0 ! nat 0
         \<and> (\<forall>j i. j < length grid3 \<longrightarrow> i < length (grid3 ! j) \<longrightarrow>
                (j, i) \<noteq> (nat 0, nat 0) \<longrightarrow> grid' ! j ! i = grid3 ! j ! i))"
proof -
  have rows: "\<forall>row \<in> set grid3. int (length row) = 3"
    using grid3_rows by blast
  have h: "(0::int) < 3" "(0::int) \<le> 0" "(0::int) < 3" "(0::int) \<le> 0" "(0::int) < int (length grid3)"
    "0 \<le> grid3 ! nat 0 ! nat 0" "grid3 ! nat 0 ! nat 0 \<le> 4"
    by (simp_all add: grid3_def)
  have la: "list_all (\<lambda>row. int (length row) = 3) grid3"
    by (simp add: grid3_def)
  from la h step_ant_grid3 step_ant_frame[OF rows h, of 1] show ?thesis by blast
qed

section \<open>The formation move interval\<close>






section \<open>Bullet resolution\<close>

lemma advance_bullet_Suc_cases:
  "advance_bullet (Suc n) b en fx fy =
     (let b1 = b\<lparr>bullet_y := bullet_y b - 1\<rparr> in
      if bullet_y b - 1 < 0 then (b1, True, en)
      else if live_at en (bullet_x b - fx, bullet_y b - 1 - fy)
           then (b1, True, hit en (bullet_x b - fx, bullet_y b - 1 - fy))
           else advance_bullet n b1 en fx fy)"
  by (simp add: Let_def live_at_def hit_def split: option.splits)

lemma advance_bullet_shape:
  "advance_bullet n b en fx fy = (b', destroyed, en') \<Longrightarrow>
   \<exists>k. k \<le> n \<and> b' = b\<lparr>bullet_y := bullet_y b - int k\<rparr>
     \<and> (\<forall>j. 1 \<le> j \<and> j < k \<longrightarrow> passes en fx fy b j)
     \<and> (if destroyed
         then 1 \<le> k \<and>
              (if bullet_y b - int k < 0 then en' = en
               else live_at en (bullet_x b - fx, bullet_y b - int k - fy)
                    \<and> en' = hit en (bullet_x b - fx, bullet_y b - int k - fy))
         else k = n \<and> en' = en \<and> (1 \<le> k \<longrightarrow> passes en fx fy b k))"
proof (induction n arbitrary: b)
  case 0
  then show ?case by (intro exI[of _ 0]) auto
next
  case (Suc n)
  let ?b1 = "b\<lparr>bullet_y := bullet_y b - 1\<rparr>"
  let ?rel = "(bullet_x b - fx, bullet_y b - 1 - fy)"
  consider (out) "bullet_y b - 1 < 0"
    | (hit) "0 \<le> bullet_y b - 1" "live_at en ?rel"
    | (go) "0 \<le> bullet_y b - 1" "\<not> live_at en ?rel"
    by linarith
  then show ?case
  proof cases
    case out
    with Suc.prems have "b' = ?b1" "destroyed" "en' = en"
      by (simp_all add: advance_bullet_Suc_cases del: advance_bullet.simps)
    with out show ?thesis by (intro exI[of _ 1]) auto
  next
    case hit
    with Suc.prems have "b' = ?b1" "destroyed" "en' = hit en ?rel"
      by (simp_all add: advance_bullet_Suc_cases del: advance_bullet.simps)
    with hit show ?thesis by (intro exI[of _ 1]) auto
  next
    case go
    with Suc.prems have "advance_bullet n ?b1 en fx fy = (b', destroyed, en')"
      by (simp add: advance_bullet_Suc_cases del: advance_bullet.simps)
    from Suc.IH[OF this] obtain k where k: "k \<le> n"
      and b': "b' = ?b1\<lparr>bullet_y := bullet_y ?b1 - int k\<rparr>"
      and pass: "\<forall>j. 1 \<le> j \<and> j < k \<longrightarrow> passes en fx fy ?b1 j"
      and fin: "if destroyed
         then 1 \<le> k \<and>
              (if bullet_y ?b1 - int k < 0 then en' = en
               else live_at en (bullet_x ?b1 - fx, bullet_y ?b1 - int k - fy)
                    \<and> en' = hit en (bullet_x ?b1 - fx, bullet_y ?b1 - int k - fy))
         else k = n \<and> en' = en \<and> (1 \<le> k \<longrightarrow> passes en fx fy ?b1 k)"
      by blast
    have shift: "passes en fx fy ?b1 j = passes en fx fy b (Suc j)" for j
      by (simp add: passes_def algebra_simps)
    have first: "passes en fx fy b 1" using go by (simp add: passes_def)
    have p: "\<forall>j. 1 \<le> j \<and> j < Suc k \<longrightarrow> passes en fx fy b j"
    proof (intro allI impI)
      fix j assume j: "1 \<le> j \<and> j < Suc k"
      show "passes en fx fy b j"
      proof (cases "j = 1")
        case True
        with first show ?thesis by simp
      next
        case False
        with j obtain i where i: "j = Suc i" "1 \<le> i" "i < k" by (cases j) auto
        with pass shift show ?thesis by simp
      qed
    qed
    have y: "bullet_y ?b1 - int k = bullet_y b - int (Suc k)" by simp
    have b'': "b' = b\<lparr>bullet_y := bullet_y b - int (Suc k)\<rparr>"
      using b' by simp
    have fin': "if destroyed
         then 1 \<le> Suc k \<and>
              (if bullet_y b - int (Suc k) < 0 then en' = en
               else live_at en (bullet_x b - fx, bullet_y b - int (Suc k) - fy)
                    \<and> en' = hit en (bullet_x b - fx, bullet_y b - int (Suc k) - fy))
         else Suc k = Suc n \<and> en' = en \<and> (1 \<le> Suc k \<longrightarrow> passes en fx fy b (Suc k))"
    proof (cases destroyed)
      case True
      with fin show ?thesis unfolding y by (simp split: if_splits)
    next
      case False
      with fin have kn: "k = n" "en' = en" and pk: "1 \<le> k \<longrightarrow> passes en fx fy ?b1 k" by auto
      have "passes en fx fy b (Suc k)"
      proof (cases "k = 0")
        case True
        with first show ?thesis by simp
      next
        case False
        with pk shift show ?thesis by simp
      qed
      with False kn show ?thesis by simp
    qed
    from k b'' p fin' show ?thesis by (intro exI[of _ "Suc k"]) simp
  qed
qed


lemma set_alist_update: "set (AList.update k v al) \<subseteq> insert (k, v) (set al)"
  by (induction al) auto

lemma set_alist_delete: "set (AList.delete k al) \<subseteq> set al"
  by (induction al) auto

lemma sum_alist_update:
  "distinct (map fst al) \<Longrightarrow> map_of al k = Some v \<Longrightarrow>
   sum_list (map snd (AList.update k v' al)) = sum_list (map snd al) - v + (v' :: int)"
  by (induction al) (auto split: if_splits)

lemma sum_alist_delete:
  "distinct (map fst al) \<Longrightarrow> map_of al k = Some v \<Longrightarrow>
   sum_list (map snd (AList.delete k al)) = sum_list (map snd al) - (v :: int)"
proof (induction al)
  case Nil
  then show ?case by simp
next
  case (Cons p al)
  obtain k' v' where p: "p = (k', v')" by (cases p)
  show ?case
  proof (cases "k' = k")
    case True
    with Cons.prems p have "k \<notin> fst ` set al" "v' = v" by auto
    then show ?thesis using p True by (simp add: AList.delete_id)
  next
    case False
    with Cons p show ?thesis by simp
  qed
qed

lemma hit_map_of:
  assumes "map_of en rel = Some hp" and "0 < hp"
  shows "map_of (hit en rel) = (map_of en)(rel := if hp = 1 then None else Some (hp - 1))"
proof (cases "hp = 1")
  case True
  with assms show ?thesis
    by (simp add: hit_def delete_update_same delete_conv')
next
  case False
  with assms have "\<not> hp - 1 \<le> 0" by simp
  with assms False show ?thesis
    by (simp add: hit_def update_conv')
qed

lemma hit_formation_ok:
  assumes ok: "formation_ok en" and live: "live_at en rel"
  shows "formation_ok (hit en rel)" and "hp_sum (hit en rel) = hp_sum en - 1"
proof -
  from live obtain hp where hp: "map_of en rel = Some hp" "0 < hp"
    by (auto simp: live_at_def split: option.splits)
  from ok have d: "distinct (map fst en)"
    and r: "\<forall>(rel, hp) \<in> set en. 1 \<le> hp \<and> hp \<le> 4"
    by (simp_all add: formation_ok_def)
  from hp(1) have "(rel, hp) \<in> set en" by (rule map_of_SomeD)
  with r have hp4: "hp \<le> 4" by auto
  show "formation_ok (hit en rel)"
  proof (cases "hp = 1")
    case True
    then have h: "hit en rel = AList.delete rel en"
      using hp by (simp add: hit_def delete_update_same)
    show ?thesis unfolding h formation_ok_def
      using d r set_alist_delete[of rel en] by (auto simp: distinct_delete)
  next
    case False
    with hp have h: "hit en rel = AList.update rel (hp - 1) en"
      by (simp add: hit_def)
    have "1 \<le> hp - 1 \<and> hp - 1 \<le> 4" using False hp hp4 by simp
    then show ?thesis unfolding h formation_ok_def
      using d r set_alist_update[of rel "hp - 1" en] by (auto simp: distinct_update)
  qed
  show "hp_sum (hit en rel) = hp_sum en - 1"
  proof (cases "hp = 1")
    case True
    then have h: "hit en rel = AList.delete rel en"
      using hp by (simp add: hit_def delete_update_same)
    show ?thesis unfolding h hp_sum_def
      using sum_alist_delete[OF d hp(1)] True by simp
  next
    case False
    with hp have h: "hit en rel = AList.update rel (hp - 1) en"
      by (simp add: hit_def)
    show ?thesis unfolding h hp_sum_def
      using sum_alist_update[OF d hp(1), of "hp - 1"] by simp
  qed
qed

lemma hit_map_le:
  assumes live: "live_at en rel" and m: "map_of (hit en rel) r = Some hp'"
  shows "\<exists>hp. map_of en r = Some hp \<and> hp' \<le> hp"
proof -
  from live obtain hp where hp: "map_of en rel = Some hp" "0 < hp"
    by (auto simp: live_at_def split: option.splits)
  from m show ?thesis
    unfolding hit_map_of[OF hp] using hp by (auto split: if_splits)
qed

lemma advance_bullet_inv:
  assumes a: "advance_bullet n b en fx fy = (b', destroyed, en')"
    and ok: "formation_ok en" and n: "1 \<le> n"
  shows "formation_ok en'"
    and "\<not> destroyed \<Longrightarrow> b' = b\<lparr>bullet_y := bullet_y b - int n\<rparr> \<and> 0 \<le> bullet_y b - int n \<and> en' = en"
    and "hp_sum en - 1 \<le> hp_sum en' \<and> hp_sum en' \<le> hp_sum en"
    and "map_of en' r = Some hp' \<Longrightarrow> \<exists>hp. map_of en r = Some hp \<and> hp' \<le> hp"
proof -
  from advance_bullet_shape[OF a] obtain k where k: "k \<le> n"
    and b': "b' = b\<lparr>bullet_y := bullet_y b - int k\<rparr>"
    and fin: "if destroyed
         then 1 \<le> k \<and>
              (if bullet_y b - int k < 0 then en' = en
               else live_at en (bullet_x b - fx, bullet_y b - int k - fy)
                    \<and> en' = hit en (bullet_x b - fx, bullet_y b - int k - fy))
         else k = n \<and> en' = en \<and> (1 \<le> k \<longrightarrow> passes en fx fy b k)"
    by blast
  let ?rel = "(bullet_x b - fx, bullet_y b - int k - fy)"
  from fin have cases: "en' = en \<or> (live_at en ?rel \<and> en' = hit en ?rel)"
    by (auto split: if_splits)
  then show "formation_ok en'"
    using ok hit_formation_ok(1) by auto
  from cases show "hp_sum en - 1 \<le> hp_sum en' \<and> hp_sum en' \<le> hp_sum en"
    using hit_formation_ok(2)[OF ok] by auto
  show "b' = b\<lparr>bullet_y := bullet_y b - int n\<rparr> \<and> 0 \<le> bullet_y b - int n \<and> en' = en"
    if "\<not> destroyed"
    using that fin b' n by (auto simp: passes_def)
  show "\<exists>hp. map_of en r = Some hp \<and> hp' \<le> hp" if "map_of en' r = Some hp'"
  proof -
    from cases show ?thesis
    proof
      assume "en' = en"
      with that show ?thesis by simp
    next
      assume c: "live_at en ?rel \<and> en' = hit en ?rel"
      with that have "map_of (hit en ?rel) r = Some hp'" by simp
      with c show ?thesis by (intro hit_map_le[of en ?rel r hp']) simp_all
    qed
  qed
qed


lemma move_bullets_inv:
  assumes "move_bullets_and_apply_hits bullets en fx fy speed = (nb, en')"
    and "formation_ok en" and "1 \<le> speed"
  shows "formation_ok en'
       \<and> (\<forall>b' \<in> set nb. \<exists>b \<in> set bullets.
             b' = b\<lparr>bullet_y := bullet_y b - speed\<rparr> \<and> 0 \<le> bullet_y b')
       \<and> length nb \<le> length bullets
       \<and> hp_sum en' \<le> hp_sum en
       \<and> hp_sum en - hp_sum en' \<le> int (length bullets) - int (length nb)
       \<and> (\<forall>r hp'. map_of en' r = Some hp' \<longrightarrow> (\<exists>hp. map_of en r = Some hp \<and> hp' \<le> hp))"
  using assms
proof (induction bullets arbitrary: en nb en')
  case Nil
  then show ?case by simp
next
  case (Cons b bullets)
  obtain b1 destroyed en1 where a: "advance_bullet (nat speed) b en fx fy = (b1, destroyed, en1)"
    by (cases "advance_bullet (nat speed) b en fx fy") auto
  obtain nb2 en2 where m2: "move_bullets_and_apply_hits bullets en1 fx fy speed = (nb2, en2)"
    by (cases "move_bullets_and_apply_hits bullets en1 fx fy speed") auto
  from Cons.prems(1) a m2 have res: "nb = (if destroyed then nb2 else b1 # nb2)" "en' = en2"
    by simp_all
  have n: "1 \<le> nat speed" and sp: "int (nat speed) = speed" using Cons.prems(3) by simp_all
  note inv = advance_bullet_inv[OF a Cons.prems(2) n]
  from Cons.IH[OF m2 inv(1) Cons.prems(3)]
  have ok2: "formation_ok en2"
    and sur: "\<forall>b' \<in> set nb2. \<exists>b \<in> set bullets.
             b' = b\<lparr>bullet_y := bullet_y b - speed\<rparr> \<and> 0 \<le> bullet_y b'"
    and len: "length nb2 \<le> length bullets"
    and t1: "hp_sum en2 \<le> hp_sum en1"
    and t2: "hp_sum en1 - hp_sum en2 \<le> int (length bullets) - int (length nb2)"
    and mono: "\<forall>r hp'. map_of en2 r = Some hp' \<longrightarrow> (\<exists>hp. map_of en1 r = Some hp \<and> hp' \<le> hp)"
    by simp_all
  have s: "\<forall>b' \<in> set nb. \<exists>b0 \<in> set (b # bullets).
             b' = b0\<lparr>bullet_y := bullet_y b0 - speed\<rparr> \<and> 0 \<le> bullet_y b'"
  proof
    fix b' assume "b' \<in> set nb"
    then consider (new) "\<not> destroyed" "b' = b1" | (old) "b' \<in> set nb2"
      unfolding res by (auto split: if_splits)
    then show "\<exists>b0 \<in> set (b # bullets).
             b' = b0\<lparr>bullet_y := bullet_y b0 - speed\<rparr> \<and> 0 \<le> bullet_y b'"
    proof cases
      case new
      from inv(2)[OF new(1)] new(2) sp show ?thesis by simp
    next
      case old
      with sur show ?thesis by auto
    qed
  qed
  have l: "length nb \<le> length (b # bullets)" unfolding res using len by simp
  have tt: "hp_sum en' \<le> hp_sum en
      \<and> hp_sum en - hp_sum en' \<le> int (length (b # bullets)) - int (length nb)"
  proof (cases destroyed)
    case True
    with inv(3) t1 t2 show ?thesis unfolding res by simp
  next
    case False
    from inv(2)[OF False] have "en1 = en" by simp
    with False t1 t2 show ?thesis unfolding res by simp
  qed
  have mm: "\<forall>r hp'. map_of en' r = Some hp' \<longrightarrow> (\<exists>hp. map_of en r = Some hp \<and> hp' \<le> hp)"
  proof (intro allI impI)
    fix r hp' assume "map_of en' r = Some hp'"
    with mono res obtain hp1 where h1: "map_of en1 r = Some hp1" "hp' \<le> hp1" by blast
    from inv(4)[OF h1(1)] obtain hp where "map_of en r = Some hp" "hp1 \<le> hp" by blast
    with h1 show "\<exists>hp. map_of en r = Some hp \<and> hp' \<le> hp" by auto
  qed
  from ok2 s l tt mm show ?case unfolding res(2) by blast
qed




lemma distinct_concat_tagged:
  assumes "distinct (map fst ps)"
    and "\<forall>p \<in> set ps. distinct (map fst (f p)) \<and> (\<forall>k \<in> fst ` set (f p). snd k = fst p)"
  shows "distinct (map fst (concat (map f ps)))"
  using assms
proof (induction ps)
  case Nil
  then show ?case by simp
next
  case (Cons p ps)
  have "fst ` set (f p) \<inter> fst ` set (concat (map f ps)) = {}"
  proof (rule ccontr)
    assume "fst ` set (f p) \<inter> fst ` set (concat (map f ps)) \<noteq> {}"
    then obtain k where k1: "k \<in> fst ` set (f p)" and k2: "k \<in> fst ` set (concat (map f ps))"
      by blast
    from k2 obtain q where q: "q \<in> set ps" "k \<in> fst ` set (f q)" by auto
    from k1 Cons.prems(2) have "snd k = fst p" by auto
    moreover from q Cons.prems(2) have "snd k = fst q" by auto
    ultimately have "fst p = fst q" by simp
    then have "fst p \<in> fst ` set ps" using q(1) by (simp add: image_iff) blast
    with Cons.prems(1) show False by simp
  qed
  with Cons show ?case by simp
qed

lemma enumerate_int_fst_distinct: "distinct (map fst (enumerate_int xs))"
  by (simp add: enumerate_int_def distinct_map inj_on_def)

lemma enumerate_int_snd: "p \<in> set (enumerate_int xs) \<Longrightarrow> snd p \<in> set xs"
  unfolding enumerate_int_def by (cases p) (auto dest: set_zip_rightD)

lemma build_enemies_formation_ok:
  assumes "\<forall>row \<in> set grid. \<forall>l \<in> set row. l \<le> 4"
  shows "formation_ok (build_enemies grid)"
proof -
  let ?f = "\<lambda>(y, row). map (\<lambda>(x, level). ((x, y), level))
          (filter (\<lambda>(x, level). level > 0) (enumerate_int row))"
  have keys: "map fst (?f (y, row)) =
      map (\<lambda>x. (x, y)) (map fst (filter (\<lambda>(x, level). level > 0) (enumerate_int row)))"
    for y :: int and row :: "int list"
    by (simp add: case_prod_unfold comp_def)
  have d: "distinct (map fst (?f p))" for p :: "int \<times> int list"
  proof -
    obtain y row where p: "p = (y, row)" by (cases p)
    have "distinct (map fst (filter (\<lambda>(x, level). level > 0) (enumerate_int row)))"
      by (rule distinct_map_filter) (rule enumerate_int_fst_distinct)
    then show ?thesis unfolding p keys
      by (subst distinct_map) (simp add: inj_on_def)
  qed
  have t: "\<forall>k \<in> fst ` set (?f p). snd k = fst p" for p :: "int \<times> int list"
    by (cases p) auto
  have "distinct (map fst (concat (map ?f (enumerate_int grid))))"
    by (rule distinct_concat_tagged) (use d t enumerate_int_fst_distinct in blast)+
  then have dist: "distinct (map fst (build_enemies grid))"
    by (simp add: build_enemies_def)
  have vals: "1 \<le> hp \<and> hp \<le> 4" if "(rel, hp) \<in> set (build_enemies grid)" for rel hp
  proof -
    from that obtain y row x where yr: "(y, row) \<in> set (enumerate_int grid)"
      and xl: "(x, hp) \<in> set (enumerate_int row)" and pos: "hp > 0"
      by (auto simp: build_enemies_def)
    from enumerate_int_snd[OF yr] enumerate_int_snd[OF xl] assms have "hp \<le> 4" by auto
    with pos show ?thesis by simp
  qed
  from dist vals show ?thesis unfolding formation_ok_def by blast
qed

lemma shooter_tick_enemies:
  "shooter_tick st rnd randbelow = Inr st' \<Longrightarrow>
   st_enemies st' = snd (move_bullets_and_apply_hits
       (fst (fire (st_enemies st) (st_formation_x st) (st_formation_y st) (st_ship_x st')
               (st_ship_y st) (st_bullets st) (st_cooldown st) (st_fire_cooldown_ticks st)))
       (st_enemies st) (st_formation_x st) (st_formation_y st) (st_bullet_speed st))
     \<and> st_bullet_speed st' = st_bullet_speed st"
  by (auto simp: shooter_tick_def Let_def split: sum.splits prod.splits if_splits)

lemma shooter_init_enemies:
  "shooter_init grid = Inr st \<Longrightarrow> st_enemies st = build_enemies grid \<and> st_bullet_speed st = 2"
  by (auto simp: shooter_init_def Let_def split: sum.splits if_splits)

lemma shooter_reachable_formation_ok:
  "shooter_reachable grid st \<Longrightarrow> \<forall>row \<in> set grid. \<forall>l \<in> set row. l \<le> 4 \<Longrightarrow>
   formation_ok (st_enemies st) \<and> st_bullet_speed st = 2"
proof (induction rule: shooter_reachable.induct)
  case (reach_init grid st)
  from shooter_init_enemies[OF reach_init.hyps] build_enemies_formation_ok[OF reach_init.prems]
  show ?case by simp
next
  case (reach_tick grid st rnd randbelow st')
  then have ok: "formation_ok (st_enemies st)" and sp: "st_bullet_speed st = 2" by simp_all
  define bullets1 where "bullets1 = fst (fire (st_enemies st) (st_formation_x st)
      (st_formation_y st) (st_ship_x st') (st_ship_y st) (st_bullets st) (st_cooldown st)
      (st_fire_cooldown_ticks st))"
  from shooter_tick_enemies[OF reach_tick.hyps(2)] have
    e: "st_enemies st' = snd (move_bullets_and_apply_hits bullets1 (st_enemies st)
       (st_formation_x st) (st_formation_y st) (st_bullet_speed st))"
    and sp': "st_bullet_speed st' = st_bullet_speed st"
    unfolding bullets1_def by simp_all
  obtain nb en' where m: "move_bullets_and_apply_hits bullets1 (st_enemies st)
       (st_formation_x st) (st_formation_y st) (st_bullet_speed st) = (nb, en')"
    by (cases "move_bullets_and_apply_hits bullets1 (st_enemies st)
       (st_formation_x st) (st_formation_y st) (st_bullet_speed st)") auto
  have "1 \<le> st_bullet_speed st" using sp by simp
  from move_bullets_inv[OF m ok this] have "formation_ok en'" by simp
  with e m sp sp' show ?case by simp
qed


lemma advance_bullet_outcome:
  assumes a: "advance_bullet (nat bullet_speed) bullet enemies fx fy = (bullet', destroyed, enemies1)"
    and sp: "1 \<le> bullet_speed" and ok: "formation_ok enemies"
  shows "\<exists>k. 1 \<le> k \<and> int k \<le> bullet_speed
          \<and> bullet' = bullet\<lparr>bullet_y := bullet_y bullet - int k\<rparr>
          \<and> (\<forall>j. 1 \<le> j \<and> j < k \<longrightarrow> passes enemies fx fy bullet j)
          \<and> (destroyed \<longleftrightarrow> \<not> passes enemies fx fy bullet k)
          \<and> (\<not> destroyed \<longrightarrow> int k = bullet_speed \<and> enemies1 = enemies)
          \<and> (destroyed \<and> bullet_y bullet - int k < 0 \<longrightarrow> enemies1 = enemies)
          \<and> (destroyed \<and> 0 \<le> bullet_y bullet - int k \<longrightarrow>
               (\<exists>hp. map_of enemies (bullet_x bullet - fx, bullet_y bullet - int k - fy) = Some hp
                  \<and> 1 \<le> hp
                  \<and> map_of enemies1 = (map_of enemies)
                       ((bullet_x bullet - fx, bullet_y bullet - int k - fy) :=
                          if hp = 1 then None else Some (hp - 1))))
          \<and> formation_ok enemies1"
proof -
  let ?rel = "\<lambda>k. (bullet_x bullet - fx, bullet_y bullet - int k - fy)"
  have n: "1 \<le> nat bullet_speed" using sp by simp
  have ok1: "formation_ok enemies1" by (rule advance_bullet_inv(1)[OF a ok n])
  from advance_bullet_shape[OF a] obtain k where k: "k \<le> nat bullet_speed"
    and b': "bullet' = bullet\<lparr>bullet_y := bullet_y bullet - int k\<rparr>"
    and pass: "\<forall>j. 1 \<le> j \<and> j < k \<longrightarrow> passes enemies fx fy bullet j"
    and fin: "if destroyed
         then 1 \<le> k \<and>
              (if bullet_y bullet - int k < 0 then enemies1 = enemies
               else live_at enemies (?rel k) \<and> enemies1 = hit enemies (?rel k))
         else k = nat bullet_speed \<and> enemies1 = enemies \<and> (1 \<le> k \<longrightarrow> passes enemies fx fy bullet k)"
    by blast
  have k1: "1 \<le> k" using fin sp by (auto split: if_splits)
  have kle: "int k \<le> bullet_speed" using k sp by linarith
  have d: "destroyed \<longleftrightarrow> \<not> passes enemies fx fy bullet k"
    using fin k1 by (auto simp: passes_def split: if_splits)
  have nd: "\<not> destroyed \<longrightarrow> int k = bullet_speed \<and> enemies1 = enemies"
    using fin sp by auto
  have out: "destroyed \<and> bullet_y bullet - int k < 0 \<longrightarrow> enemies1 = enemies"
    using fin by auto
  have h: "destroyed \<and> 0 \<le> bullet_y bullet - int k \<longrightarrow>
               (\<exists>hp. map_of enemies (?rel k) = Some hp \<and> 1 \<le> hp
                  \<and> map_of enemies1 = (map_of enemies)
                       (?rel k := if hp = 1 then None else Some (hp - 1)))"
  proof
    assume "destroyed \<and> 0 \<le> bullet_y bullet - int k"
    with fin have l: "live_at enemies (?rel k)" and e: "enemies1 = hit enemies (?rel k)"
      by auto
    from l obtain hp where hp: "map_of enemies (?rel k) = Some hp" "0 < hp"
      by (auto simp: live_at_def split: option.splits)
    from hit_map_of[OF hp] hp e show "\<exists>hp. map_of enemies (?rel k) = Some hp \<and> 1 \<le> hp
                  \<and> map_of enemies1 = (map_of enemies)
                       (?rel k := if hp = 1 then None else Some (hp - 1))"
      by auto
  qed
  from k1 kle b' pass d nd out h ok1 show ?thesis by blast
qed

text \<open>
  C2. For a well-formed formation and \<open>bullet_speed \<ge> 1\<close>: the inner loop moves a
  bullet by \<open>k\<close> single rows, \<open>1 \<le> k \<le> bullet_speed\<close>, every earlier sub-step having
  passed; the bullet is destroyed exactly when the \<open>k\<close>-th sub-step does not pass; if
  it left the grid above row 0 the formation is unchanged; if it reached a live enemy,
  that enemy's hit points go down by exactly one and the entry is removed when they reach
  zero, nothing else changes, and the bullet is destroyed in both cases; a surviving
  bullet has moved exactly \<open>bullet_speed\<close> rows and changed nothing. For a whole list of
  bullets: the formation stays well formed (every value in \<open>[1, 4]\<close>), the survivors are
  input bullets moved up by \<open>bullet_speed\<close>, no entry appears or gains hit points, and the
  hit points lost are at most the number of bullets destroyed (one hit per bullet at
  most). In every state of a run on a grid with levels up to 4 the formation is well
  formed.
\<close>

theorem bullet_resolution:
  assumes "1 \<le> bullet_speed" and "formation_ok enemies"
  shows
   "(\<forall>bullet bullet' destroyed enemies1.
       advance_bullet (nat bullet_speed) bullet enemies formation_x formation_y
         = (bullet', destroyed, enemies1) \<longrightarrow>
       (\<exists>k. 1 \<le> k \<and> int k \<le> bullet_speed
          \<and> bullet' = bullet\<lparr>bullet_y := bullet_y bullet - int k\<rparr>
          \<and> (\<forall>j. 1 \<le> j \<and> j < k \<longrightarrow> passes enemies formation_x formation_y bullet j)
          \<and> (destroyed \<longleftrightarrow> \<not> passes enemies formation_x formation_y bullet k)
          \<and> (\<not> destroyed \<longrightarrow> int k = bullet_speed \<and> enemies1 = enemies)
          \<and> (destroyed \<and> bullet_y bullet - int k < 0 \<longrightarrow> enemies1 = enemies)
          \<and> (destroyed \<and> 0 \<le> bullet_y bullet - int k \<longrightarrow>
               (\<exists>hp. map_of enemies
                        (bullet_x bullet - formation_x, bullet_y bullet - int k - formation_y)
                        = Some hp
                  \<and> 1 \<le> hp
                  \<and> map_of enemies1 = (map_of enemies)
                       ((bullet_x bullet - formation_x, bullet_y bullet - int k - formation_y) :=
                          if hp = 1 then None else Some (hp - 1))))
          \<and> formation_ok enemies1))
    \<and> (\<forall>bullets next_bullets enemies'.
         move_bullets_and_apply_hits bullets enemies formation_x formation_y bullet_speed
           = (next_bullets, enemies') \<longrightarrow>
         formation_ok enemies'
       \<and> (\<forall>b' \<in> set next_bullets. \<exists>b \<in> set bullets.
             b' = b\<lparr>bullet_y := bullet_y b - bullet_speed\<rparr> \<and> 0 \<le> bullet_y b')
       \<and> length next_bullets \<le> length bullets
       \<and> hp_sum enemies' \<le> hp_sum enemies
       \<and> hp_sum enemies - hp_sum enemies' \<le> int (length bullets) - int (length next_bullets)
       \<and> (\<forall>rel hp'. map_of enemies' rel = Some hp' \<longrightarrow>
             (\<exists>hp. map_of enemies rel = Some hp \<and> hp' \<le> hp)))
    \<and> (shooter_reachable grid st \<and> (\<forall>row \<in> set grid. \<forall>l \<in> set row. l \<le> 4) \<longrightarrow>
         formation_ok (st_enemies st))"
proof (intro conjI allI impI)
  fix bullet bullet' destroyed enemies1
  assume a: "advance_bullet (nat bullet_speed) bullet enemies formation_x formation_y
         = (bullet', destroyed, enemies1)"
  show "\<exists>k. 1 \<le> k \<and> int k \<le> bullet_speed
          \<and> bullet' = bullet\<lparr>bullet_y := bullet_y bullet - int k\<rparr>
          \<and> (\<forall>j. 1 \<le> j \<and> j < k \<longrightarrow> passes enemies formation_x formation_y bullet j)
          \<and> (destroyed \<longleftrightarrow> \<not> passes enemies formation_x formation_y bullet k)
          \<and> (\<not> destroyed \<longrightarrow> int k = bullet_speed \<and> enemies1 = enemies)
          \<and> (destroyed \<and> bullet_y bullet - int k < 0 \<longrightarrow> enemies1 = enemies)
          \<and> (destroyed \<and> 0 \<le> bullet_y bullet - int k \<longrightarrow>
               (\<exists>hp. map_of enemies
                        (bullet_x bullet - formation_x, bullet_y bullet - int k - formation_y)
                        = Some hp
                  \<and> 1 \<le> hp
                  \<and> map_of enemies1 = (map_of enemies)
                       ((bullet_x bullet - formation_x, bullet_y bullet - int k - formation_y) :=
                          if hp = 1 then None else Some (hp - 1))))
          \<and> formation_ok enemies1"
    by (rule advance_bullet_outcome[OF a assms])
next
  assume "shooter_reachable grid st \<and> (\<forall>row \<in> set grid. \<forall>l \<in> set row. l \<le> 4)"
  then show "formation_ok (st_enemies st)"
    using shooter_reachable_formation_ok by blast
next
  fix bullets next_bullets enemies'
  assume m: "move_bullets_and_apply_hits bullets enemies formation_x formation_y bullet_speed
           = (next_bullets, enemies')"
  note inv = move_bullets_inv[OF m assms(2) assms(1)]
  show "formation_ok enemies'" using inv by blast
  show "\<forall>b' \<in> set next_bullets. \<exists>b \<in> set bullets.
             b' = b\<lparr>bullet_y := bullet_y b - bullet_speed\<rparr> \<and> 0 \<le> bullet_y b'"
    using inv by blast
  show "length next_bullets \<le> length bullets" using inv by blast
  show "hp_sum enemies' \<le> hp_sum enemies" using inv by blast
  show "hp_sum enemies - hp_sum enemies' \<le> int (length bullets) - int (length next_bullets)"
    using inv by blast
  fix rel hp' assume "map_of enemies' rel = Some hp'"
  with inv show "\<exists>hp. map_of enemies rel = Some hp \<and> hp' \<le> hp" by blast
qed


lemma formation3_ok: "formation_ok formation3"
  by (simp add: formation_ok_def formation3_def)

lemma move_bullets4:
  "move_bullets_and_apply_hits bullets4 formation3 1 2 2
     = ([\<lparr>bullet_x = 7, bullet_y = 7\<rparr>], [((2, 0), 1), ((1, 0), 2)])"
  by code_simp

lemma advance_bullet_ex:
  "advance_bullet (nat 2) \<lparr>bullet_x = 2, bullet_y = 4\<rparr> formation3 1 2
     = (\<lparr>bullet_x = 2, bullet_y = 2\<rparr>, True, [((0, 0), 1), ((2, 0), 1), ((1, 0), 2)])"
  by code_simp

lemma grid2_levels: "\<forall>row \<in> set grid2. \<forall>l \<in> set row. l \<le> 4"
  by (simp add: grid2_def)

theorem bullet_resolution_witness:
  "(1::int) \<le> 2 \<and> formation_ok formation3
   \<and> advance_bullet (nat 2) \<lparr>bullet_x = 2, bullet_y = 4\<rparr> formation3 1 2
        = (\<lparr>bullet_x = 2, bullet_y = 2\<rparr>, True, [((0, 0), 1), ((2, 0), 1), ((1, 0), 2)])
   \<and> formation_ok [((0, 0), 1), ((2, 0), 1), ((1, 0), 2)]
   \<and> move_bullets_and_apply_hits bullets4 formation3 1 2 2
        = ([\<lparr>bullet_x = 7, bullet_y = 7\<rparr>], [((2, 0), 1), ((1, 0), 2)])
   \<and> formation_ok [((2, 0), 1), ((1, 0), 2)]
   \<and> hp_sum formation3 - hp_sum [((2, 0), 1), ((1, 0), 2)]
        \<le> int (length bullets4) - int (length [\<lparr>bullet_x = 7, bullet_y = 7\<rparr>])
   \<and> shooter_reachable grid2 st_grid2 \<and> list_all (\<lambda>row. list_all (\<lambda>l. l \<le> 4) row) grid2
   \<and> formation_ok (st_enemies st_grid2)"
proof -
  have h: "(1::int) \<le> 2" by simp
  have r: "shooter_reachable grid2 st_grid2"
    by (rule reach_init) (rule shooter_init_grid2)
  note t = bullet_resolution[OF h formation3_ok, of 1 2 grid2 st_grid2]
  from t[THEN conjunct1, rule_format, OF advance_bullet_ex]
  have 1: "formation_ok [((0, 0), 1), ((2, 0), 1), ((1, 0), 2)]" by blast
  from t[THEN conjunct2, THEN conjunct1, rule_format, OF move_bullets4]
  have 2: "formation_ok [((2, 0), 1), ((1, 0), 2)]"
    "hp_sum formation3 - hp_sum [((2, 0), 1), ((1, 0), 2)]
        \<le> int (length bullets4) - int (length [\<lparr>bullet_x = 7, bullet_y = 7\<rparr>])"
    by blast+
  from t[THEN conjunct2, THEN conjunct2] r grid2_levels
  have 3: "formation_ok (st_enemies st_grid2)" by blast
  have la: "list_all (\<lambda>row. list_all (\<lambda>l. l \<le> 4) row) grid2"
    by (simp add: grid2_def)
  from h formation3_ok advance_bullet_ex move_bullets4 1 2 3 r la
  show ?thesis by blast
qed




section \<open>Grids with no active cell\<close>

lemma build_enemies_empty:
  assumes "\<forall>row \<in> set grid. \<forall>l \<in> set row. l \<le> 0"
  shows "build_enemies grid = []"
proof -
  have "filter (\<lambda>(x, level). level > 0) (enumerate_int row) = []" if "row \<in> set grid" for row
  proof -
    have "\<not> snd p > 0" if "p \<in> set (enumerate_int row)" for p
      using enumerate_int_snd[OF that] assms \<open>row \<in> set grid\<close> by fastforce
    then show ?thesis by (auto simp: filter_empty_conv)
  qed
  moreover have "snd p \<in> set grid" if "p \<in> set (enumerate_int grid)" for p
    using that by (rule enumerate_int_snd)
  ultimately show ?thesis
    by (auto simp: build_enemies_def)
qed

lemma shooter_init_no_enemies:
  assumes "\<forall>row \<in> set grid. \<forall>l \<in> set row. l \<le> 0"
  shows "shooter_init grid = Inl (RuntimeError ''No enemies found. No contributions available to render.'')"
  by (simp add: shooter_init_def build_enemies_empty[OF assms])

lemma shooter_unreachable:
  "shooter_reachable grid st \<Longrightarrow> \<forall>row \<in> set grid. \<forall>l \<in> set row. l \<le> 0 \<Longrightarrow> False"
proof (induction rule: shooter_reachable.induct)
  case (reach_init grid st)
  with shooter_init_no_enemies[OF reach_init.prems] show ?case by simp
next
  case (reach_tick grid st rnd randbelow st')
  then show ?case by simp
qed

text \<open>
  C9, as stated, fails for the automaton: its \<^verbatim>\<open>generate_gif\<close> has no test of the grid's
  levels, and on the all-zero grid of width 7 and height 7 it takes its steps.
\<close>

theorem automaton_accepts_empty_grid_counterexample:
  "ant_generate zeros7 0 0 2 =
     Inr ([[1, 0, 0, 0, 0, 0, 0], [1, 0, 0, 0, 0, 0, 0], [0, 0, 0, 0, 0, 0, 0],
           [0, 0, 0, 0, 0, 0, 0], [0, 0, 0, 0, 0, 0, 0], [0, 0, 0, 0, 0, 0, 0],
           [0, 0, 0, 0, 0, 0, 0]], 6, 1, 3)"
  by code_simp

text \<open>
  C9, amended. On a grid with no positive level the shooter's construction fails with
  the error "No enemies found", and no state of a run exists, so no simulation step is
  taken. The automaton has no such check: on a grid whose rows all have \<open>width\<close> cells
  with levels in \<open>0..4\<close>, all zeros included, from a start cell of the grid, it takes
  every step of its iteration budget and returns.
\<close>

theorem no_active_cells:
  "((\<forall>row \<in> set grid. \<forall>l \<in> set row. l \<le> 0) \<longrightarrow>
      shooter_init grid
        = Inl (RuntimeError ''No enemies found. No contributions available to render.'')
      \<and> (\<forall>st. \<not> shooter_reachable grid st))
   \<and> ((\<forall>row \<in> set grid. int (length row) = width \<and> (\<forall>l \<in> set row. 0 \<le> l \<and> l \<le> 4))
       \<and> 0 \<le> start_x \<and> start_x < width \<and> 0 \<le> start_y \<and> start_y < int (length grid) \<longrightarrow>
       (\<exists>grid' ant_x ant_y heading.
          ant_generate grid start_x start_y iterations = Inr (grid', ant_x, ant_y, heading)))"
proof (intro conjI impI allI)
  assume z: "\<forall>row \<in> set grid. \<forall>l \<in> set row. l \<le> 0"
  show "shooter_init grid
        = Inl (RuntimeError ''No enemies found. No contributions available to render.'')"
    by (rule shooter_init_no_enemies[OF z])
  fix st show "\<not> shooter_reachable grid st"
    using shooter_unreachable z by blast
next
  assume a: "(\<forall>row \<in> set grid. int (length row) = width \<and> (\<forall>l \<in> set row. 0 \<le> l \<and> l \<le> 4))
       \<and> 0 \<le> start_x \<and> start_x < width \<and> 0 \<le> start_y \<and> start_y < int (length grid)"
  then have rows: "\<forall>row \<in> set grid. int (length row) = width \<and> (\<forall>l \<in> set row. 0 \<le> l \<and> l \<le> 4)"
    and x: "0 \<le> start_x" "start_x < width" and y: "0 \<le> start_y" "start_y < int (length grid)"
    by blast+
  from x have w: "0 < width" by linarith
  from run_ant_ok[OF rows w x y, of "nat iterations" 1]
  show "\<exists>grid' ant_x ant_y heading.
          ant_generate grid start_x start_y iterations = Inr (grid', ant_x, ant_y, heading)"
    unfolding ant_generate_def by blast
qed

lemma zeros7_rows:
  "\<forall>row \<in> set zeros7. int (length row) = 7 \<and> (\<forall>l \<in> set row. 0 \<le> l \<and> l \<le> 4)"
  by (simp add: zeros7_def)

theorem no_active_cells_witness:
  "list_all (\<lambda>row. list_all (\<lambda>l. l \<le> 0) row) zeros7
   \<and> shooter_init zeros7
        = Inl (RuntimeError ''No enemies found. No contributions available to render.'')
   \<and> list_all (\<lambda>row. int (length row) = 7 \<and> list_all (\<lambda>l. 0 \<le> l \<and> l \<le> 4) row) zeros7
   \<and> (0::int) \<le> 3 \<and> (3::int) < 7 \<and> (3::int) < int (length zeros7)
   \<and> (\<exists>grid' ant_x ant_y heading.
          ant_generate zeros7 3 3 900 = Inr (grid', ant_x, ant_y, heading))"
proof -
  have z: "\<forall>row \<in> set zeros7. \<forall>l \<in> set row. l \<le> 0" by (simp add: zeros7_def)
  have h: "(0::int) \<le> 3" "(3::int) < 7" "(3::int) < int (length zeros7)"
    by (simp_all add: zeros7_def)
  note t = no_active_cells[of zeros7 7 3 3 900]
  from t z have 1: "shooter_init zeros7
        = Inl (RuntimeError ''No enemies found. No contributions available to render.'')"
    by blast
  from t zeros7_rows h have 2: "\<exists>grid' ant_x ant_y heading.
          ant_generate zeros7 3 3 900 = Inr (grid', ant_x, ant_y, heading)"
    by blast
  have la: "list_all (\<lambda>row. list_all (\<lambda>l. l \<le> 0) row) zeros7"
    "list_all (\<lambda>row. int (length row) = 7 \<and> list_all (\<lambda>l. 0 \<le> l \<and> l \<le> 4) row) zeros7"
    by (simp_all add: zeros7_def list_all_iff)
  from la 1 h 2 show ?thesis by blast
qed

section \<open>Chaos mode\<close>


lemma choose_target_outside_chaos:
  "int (length enemies) \<le> 220 \<Longrightarrow>
   choose_target enemies formation_x formation_y ship_x current_target_x tick rnd randbelow
     = pick_target_column enemies formation_x formation_y ship_x"
  by (simp add: choose_target_def)








end
